theory Spec2Isabelle
  imports Complex_Main "HOL-Library.AList"
begin

section \<open>Conventions of the embedding\<close>

text \<open>
  The services are NestJS classes whose methods read a clock, a relational store and a few
  in-process maps. Each method becomes a function that takes the store or map it touches and
  the instant \<open>now\<close> at which it runs, and returns its result together with the updated
  store. An instant is the number of milliseconds since the epoch, the value JavaScript
  compares when two \<open>Date\<close> objects meet \<open><\<close> or \<open>>\<close>. One call reads the clock once:
  the few milliseconds between two \<open>new Date()\<close> inside one method are not modelled.
  A thrown NestJS exception is the left injection of the result, carrying the exception class
  and its message; an error the store raises is \<open>QueryFailedError\<close>. The store is taken
  to be up: it fails only where the schema of the source makes it fail, on the query of
  \<open>checkBruteforceAttempt\<close> in the fraud service, which names a column the table lacks, and
  on the two updates of a sign-in, when a string is longer than the \<open>varchar\<close> column it is
  written to.
\<close>

type_synonym time = int

datatype error =
    BadRequestException string
  | UnauthorizedException string
  | ForbiddenException string
  | QueryFailedError string

text \<open>JavaScript truthiness of an optional string: \<open>undefined\<close>, \<open>null\<close> and the empty
  string are falsy.\<close>

definition truthy :: "string option \<Rightarrow> bool" where
  "truthy s = (case s of None \<Rightarrow> False | Some v \<Rightarrow> v \<noteq> [])"

text \<open>\<open>a || ''\<close> on an optional string.\<close>

definition orEmpty :: "string option \<Rightarrow> string" where
  "orEmpty s = (case s of None \<Rightarrow> [] | Some v \<Rightarrow> v)"

section \<open>The OTP entity and \<open>OtpService\<close>\<close>

datatype OtpPurpose = EMAIL_VERIFICATION | PHONE_VERIFICATION | PASSWORD_RESET | LOGIN

datatype OtpStatus = PENDING | VERIFIED | EXPIRED | FAILED

text \<open>A row of table \<open>otps\<close>. The primary key is a generated uuid; the model draws it from a
  counter. Column \<open>metadata\<close>, which no service reads or writes, is left out.\<close>

record Otp =
  otp_id :: nat
  otp_userId :: "string option"
  otp_email :: "string option"
  otp_phone :: "string option"
  otp_code :: string
  otp_purpose :: OtpPurpose
  otp_status :: OtpStatus
  otp_attempts :: int
  otp_maxAttempts :: int
  otp_expiresAt :: time
  otp_ipAddress :: "string option"
  otp_createdAt :: time
  otp_verifiedAt :: "time option"

record OtpRepository =
  otp_rows :: "Otp list"
  otp_nextId :: nat

definition findOtpById :: "Otp list \<Rightarrow> nat \<Rightarrow> Otp option" where
  "findOtpById rs i = find (\<lambda>r. otp_id r = i) rs"

text \<open>\<open>repository.save\<close> of an entity that was loaded from the table: the row with its
  primary key is overwritten.\<close>

definition saveOtp :: "Otp \<Rightarrow> OtpRepository \<Rightarrow> OtpRepository" where
  "saveOtp otp repo =
     repo\<lparr>otp_rows := map (\<lambda>r. if otp_id r = otp_id otp then otp else r) (otp_rows repo)\<rparr>"

subsection \<open>\<open>generateRandomCode\<close>\<close>

text \<open>\<open>Number.prototype.toString\<close> on an integer: its decimal digits, most significant
  first, after a minus sign when it is negative.\<close>

definition digitChar :: "nat \<Rightarrow> char" where
  "digitChar d = ''0123456789'' ! d"

function decimal :: "nat \<Rightarrow> string" where
  "decimal n = (if n < 10 then [digitChar n] else decimal (n div 10) @ [digitChar (n mod 10)])"
  by pat_completeness auto
termination
  by (relation "measure (\<lambda>n. n)") auto

declare decimal.simps [simp del]

definition toString :: "int \<Rightarrow> string" where
  "toString i = (if i < 0 then CHR ''-'' # decimal (nat (- i)) else decimal (nat i))"

text \<open>JavaScript numbers are IEEE 754 doubles, and an arithmetic operation returns the exact
  result rounded to the nearest double, ties going to the even one. Around a number \<open>x\<close> the
  doubles are the multiples of \<open>ulp x\<close>, which is \<open>2\<close> to the power \<open>e - 52\<close> where
  \<open>2 ^ e \<le> \<bar>x\<bar> < 2 ^ (e + 1)\<close>, and \<open>e\<close> is taken as \<open>- 1022\<close> below that (the
  subnormal numbers). \<open>double x\<close> is the double nearest to \<open>x\<close>; overflow to infinity,
  beyond any number met here, is not modelled. \<open>isDouble x\<close> says that \<open>x\<close> is itself the
  value of a finite double: an integer of less than 53 bits times a power of two in range.\<close>

definition binade :: "real \<Rightarrow> int" where
  "binade x = max \<lfloor>log 2 \<bar>x\<bar>\<rfloor> (- 1022)"

definition ulp :: "real \<Rightarrow> real" where
  "ulp x = 2 powi (binade x - 52)"

definition roundTiesToEven :: "real \<Rightarrow> int" where
  "roundTiesToEven y =
     (let f = \<lfloor>y\<rfloor>
      in if y - of_int f < 1 / 2 then f
         else if 1 / 2 < y - of_int f then f + 1
         else if even f then f else f + 1)"

definition double :: "real \<Rightarrow> real" where
  "double x = (if x = 0 then 0 else of_int (roundTiesToEven (x / ulp x)) * ulp x)"

definition isDouble :: "real \<Rightarrow> bool" where
  "isDouble x \<longleftrightarrow>
     (\<exists>m e. \<bar>m\<bar> < 2 ^ 53 \<and> - 1074 \<le> e \<and> e \<le> 971 \<and> x = of_int m * 2 powi e)"

text \<open>\<open>Math.floor(100000 + Math.random() * 900000).toString()\<close>. The argument \<open>r\<close> is
  the value \<open>Math.random()\<close> returned, a double with \<open>0 \<le> r < 1\<close>. The product and the
  sum are each rounded to a double; both constants are doubles, and the floor of a double is
  one.\<close>

definition generateRandomCode :: "real \<Rightarrow> string" where
  "generateRandomCode r = toString \<lfloor>double (100000 + double (r * 900000))\<rfloor>"

subsection \<open>\<open>invalidatePreviousOtps\<close> and \<open>generateOtp\<close>\<close>

text \<open>The update query: every row of the purpose whose status is pending, narrowed by each
  of email, phone and user id that is truthy, becomes expired.\<close>

definition invalidates :: "OtpPurpose \<Rightarrow> string option \<Rightarrow> string option \<Rightarrow> string option \<Rightarrow> Otp \<Rightarrow> bool" where
  "invalidates purpose email phone userId r \<longleftrightarrow>
     otp_purpose r = purpose \<and> otp_status r = PENDING
     \<and> (if truthy email then otp_email r = email else True)
     \<and> (if truthy phone then otp_phone r = phone else True)
     \<and> (if truthy userId then otp_userId r = userId else True)"

definition invalidatePreviousOtps ::
  "OtpRepository \<Rightarrow> OtpPurpose \<Rightarrow> string option \<Rightarrow> string option \<Rightarrow> string option \<Rightarrow> OtpRepository" where
  "invalidatePreviousOtps repo purpose email phone userId =
     repo\<lparr>otp_rows :=
       map (\<lambda>r. if invalidates purpose email phone userId r then r\<lparr>otp_status := EXPIRED\<rparr> else r)
         (otp_rows repo)\<rparr>"

record GeneratedOtp =
  gen_id :: nat
  gen_expiresIn :: int

definition generateOtp ::
  "OtpRepository \<Rightarrow> OtpPurpose \<Rightarrow> string option \<Rightarrow> string option \<Rightarrow> string option \<Rightarrow> string option
     \<Rightarrow> real \<Rightarrow> time \<Rightarrow> GeneratedOtp \<times> OtpRepository" where
  "generateOtp repo purpose email phone userId ipAddress r now =
     (let repo1 = invalidatePreviousOtps repo purpose email phone userId;
          code = generateRandomCode r;
          expiresAt = now + 60 * 1000;
          otp = \<lparr>otp_id = otp_nextId repo1, otp_userId = userId, otp_email = email,
                 otp_phone = phone, otp_code = code, otp_purpose = purpose,
                 otp_status = PENDING, otp_attempts = 0, otp_maxAttempts = 3,
                 otp_expiresAt = expiresAt, otp_ipAddress = ipAddress,
                 otp_createdAt = now, otp_verifiedAt = None\<rparr>
      in (\<lparr>gen_id = otp_id otp, gen_expiresIn = 60\<rparr>,
          repo1\<lparr>otp_rows := otp_rows repo1 @ [otp], otp_nextId := Suc (otp_nextId repo1)\<rparr>))"

subsection \<open>\<open>verifyOtp\<close>\<close>

record VerifiedOtp =
  ver_verified :: bool
  ver_userId :: "string option"
  ver_email :: "string option"
  ver_phone :: "string option"

text \<open>The checks run in the order of the source: not found, expired, already verified,
  attempts exhausted, code mismatch. Argument \<open>purpose\<close> only reaches the log line.\<close>

definition verifyOtp ::
  "OtpRepository \<Rightarrow> nat \<Rightarrow> string \<Rightarrow> OtpPurpose \<Rightarrow> time \<Rightarrow> (error + VerifiedOtp) \<times> OtpRepository" where
  "verifyOtp repo otpId code purpose now =
     (case findOtpById (otp_rows repo) otpId of
        None \<Rightarrow> (Inl (BadRequestException ''OTP not found''), repo)
      | Some otp \<Rightarrow>
          if now > otp_expiresAt otp then
            (Inl (BadRequestException ''OTP has expired''),
             saveOtp (otp\<lparr>otp_status := EXPIRED\<rparr>) repo)
          else if otp_status otp = VERIFIED then
            (Inl (BadRequestException ''OTP already used''), repo)
          else if otp_attempts otp \<ge> otp_maxAttempts otp then
            (Inl (BadRequestException ''Maximum OTP attempts exceeded''),
             saveOtp (otp\<lparr>otp_status := FAILED\<rparr>) repo)
          else if otp_code otp \<noteq> code then
            (Inl (BadRequestException ''Invalid OTP code''),
             saveOtp (otp\<lparr>otp_attempts := otp_attempts otp + 1\<rparr>) repo)
          else
            (Inr \<lparr>ver_verified = True, ver_userId = otp_userId otp,
                  ver_email = otp_email otp, ver_phone = otp_phone otp\<rparr>,
             saveOtp (otp\<lparr>otp_status := VERIFIED, otp_verifiedAt := Some now\<rparr>) repo))"

subsection \<open>Queries\<close>

text \<open>\<open>findOne\<close> with a \<open>where\<close> object: a property whose value is \<open>undefined\<close> adds no
  condition; the answer is the first matching row, or \<open>null\<close>.\<close>

definition whereEq :: "string option \<Rightarrow> string option \<Rightarrow> bool" where
  "whereEq wanted column = (case wanted of None \<Rightarrow> True | Some v \<Rightarrow> column = Some v)"

definition isEmailVerified :: "OtpRepository \<Rightarrow> string \<Rightarrow> bool" where
  "isEmailVerified repo email =
     (find (\<lambda>r. otp_email r = Some email \<and> otp_purpose r = EMAIL_VERIFICATION
                 \<and> otp_status r = VERIFIED) (otp_rows repo) \<noteq> None)"

definition isPhoneVerified :: "OtpRepository \<Rightarrow> string \<Rightarrow> bool" where
  "isPhoneVerified repo phone =
     (find (\<lambda>r. otp_phone r = Some phone \<and> otp_purpose r = PHONE_VERIFICATION
                 \<and> otp_status r = VERIFIED) (otp_rows repo) \<noteq> None)"

definition getPendingOtp ::
  "OtpRepository \<Rightarrow> OtpPurpose \<Rightarrow> string option \<Rightarrow> string option \<Rightarrow> time \<Rightarrow> Otp option" where
  "getPendingOtp repo purpose email phone now =
     find (\<lambda>r. otp_purpose r = purpose \<and> whereEq email (otp_email r)
                \<and> whereEq phone (otp_phone r) \<and> otp_status r = PENDING
                \<and> otp_expiresAt r < now) (otp_rows repo)"

section \<open>\<open>IpBlockerService\<close>\<close>

record BlockedIpRecord =
  blk_ipAddress :: string
  blk_reason :: string
  blk_blockedAt :: time
  blk_unblockAt :: time
  blk_isActive :: bool

text \<open>The service keeps a JavaScript \<open>Map\<close> from address to record. A \<open>Map\<close> iterates in
  insertion order and \<open>set\<close> on a present key keeps its place, which is what
  \<^const>\<open>AList.update\<close> does on an association list.\<close>

type_synonym BlockedIps = "(string \<times> BlockedIpRecord) list"

definition blockIp :: "BlockedIps \<Rightarrow> string \<Rightarrow> string \<Rightarrow> int \<Rightarrow> time \<Rightarrow> BlockedIpRecord \<times> BlockedIps" where
  "blockIp blockedIps ipAddress reason durationHours now =
     (let entry = \<lparr>blk_ipAddress = ipAddress, blk_reason = reason, blk_blockedAt = now,
                    blk_unblockAt = now + durationHours * 60 * 60 * 1000, blk_isActive = True\<rparr>
      in (entry, AList.update ipAddress entry blockedIps))"

definition isIpBlocked :: "BlockedIps \<Rightarrow> string \<Rightarrow> time \<Rightarrow> bool \<times> BlockedIps" where
  "isIpBlocked blockedIps ipAddress now =
     (case map_of blockedIps ipAddress of
        None \<Rightarrow> (False, blockedIps)
      | Some entry \<Rightarrow>
          if now > blk_unblockAt entry then (False, AList.delete ipAddress blockedIps)
          else (blk_isActive entry, blockedIps))"

definition getBlockRecord :: "BlockedIps \<Rightarrow> string \<Rightarrow> time \<Rightarrow> BlockedIpRecord option \<times> BlockedIps" where
  "getBlockRecord blockedIps ipAddress now =
     (case map_of blockedIps ipAddress of
        None \<Rightarrow> (None, blockedIps)
      | Some entry \<Rightarrow>
          if now > blk_unblockAt entry then (None, AList.delete ipAddress blockedIps)
          else (Some entry, blockedIps))"

definition unblockIp :: "BlockedIps \<Rightarrow> string \<Rightarrow> bool \<times> BlockedIps" where
  "unblockIp blockedIps ipAddress =
     (map_of blockedIps ipAddress \<noteq> None, AList.delete ipAddress blockedIps)"

definition getAllBlockedIps :: "BlockedIps \<Rightarrow> time \<Rightarrow> BlockedIpRecord list \<times> BlockedIps" where
  "getAllBlockedIps blockedIps now =
     (let active = filter (\<lambda>(ip, entry). now \<le> blk_unblockAt entry) blockedIps
      in (map snd active, active))"

definition clearExpiredBlocks :: "BlockedIps \<Rightarrow> time \<Rightarrow> nat \<times> BlockedIps" where
  "clearExpiredBlocks blockedIps now =
     (length (filter (\<lambda>(ip, entry). now > blk_unblockAt entry) blockedIps),
      filter (\<lambda>(ip, entry). \<not> now > blk_unblockAt entry) blockedIps)"

section \<open>\<open>FraudDetectionService\<close>\<close>

datatype FraudReason =
    FAKE_EMAIL | DISPOSABLE_EMAIL | INVALID_MX_RECORD | FAKE_PHONE | VOIP_NUMBER | VIRTUAL_SIM
  | INVALID_CARRIER | VPN_IP | PROXY_IP | TOR_IP | BLACKLISTED_IP | HIGH_RISK_COUNTRY
  | BRUTEFORCE_ATTEMPT | MULTIPLE_ACCOUNTS_SAME_IP

fun reasonValue :: "FraudReason \<Rightarrow> string" where
  "reasonValue FAKE_EMAIL = ''fake_email''"
| "reasonValue DISPOSABLE_EMAIL = ''disposable_email''"
| "reasonValue INVALID_MX_RECORD = ''invalid_mx_record''"
| "reasonValue FAKE_PHONE = ''fake_phone''"
| "reasonValue VOIP_NUMBER = ''voip_number''"
| "reasonValue VIRTUAL_SIM = ''virtual_sim''"
| "reasonValue INVALID_CARRIER = ''invalid_carrier''"
| "reasonValue VPN_IP = ''vpn_ip''"
| "reasonValue PROXY_IP = ''proxy_ip''"
| "reasonValue TOR_IP = ''tor_ip''"
| "reasonValue BLACKLISTED_IP = ''blacklisted_ip''"
| "reasonValue HIGH_RISK_COUNTRY = ''high_risk_country''"
| "reasonValue BRUTEFORCE_ATTEMPT = ''bruteforce_attempt''"
| "reasonValue MULTIPLE_ACCOUNTS_SAME_IP = ''multiple_accounts_same_ip''"

text \<open>A value stored under a key of the \<open>details\<close> object.\<close>

datatype detail = DBool bool | DNumber int | DString "string option"

type_synonym details = "(string \<times> detail) list"

record FraudCheckResult =
  isFraud :: bool
  fraudScore :: int
  reasons :: "FraudReason list"
  details :: details

subsection \<open>Lookups behind the service\<close>

record CarrierInfo =
  car_isValid :: bool
  car_isVoip :: bool
  car_isVirtual :: bool

record IpReputation =
  rep_isVpn :: bool
  rep_isProxy :: bool
  rep_isTor :: bool
  rep_country :: "string option"
  rep_isp :: "string option"

text \<open>The DNS resolver and four private methods stand for outside services: carrier lookup,
  recycled-number lookup, address reputation and range membership. \<open>resolveMx d\<close> says
  that \<open>dns.resolveMx\<close> answered with at least one record for domain \<open>d\<close>; a resolver
  error is \<open>False\<close>, as \<open>validateMxRecord\<close> catches it. \<open>toLowerCase\<close> is
  \<open>String.prototype.toLowerCase\<close> of the runtime, which maps letters of every script.
  The scoring functions take these six as a parameter; \<open>placeholderLookups\<close> holds the
  bodies the four methods have in the source, each of which returns a constant, beside a
  resolver and a lower-casing that it is given.\<close>

record Lookups =
  resolveMx :: "string \<Rightarrow> bool"
  toLowerCase :: "string \<Rightarrow> string"
  checkCarrierInfo :: "string \<Rightarrow> CarrierInfo"
  isRecycledNumber :: "string \<Rightarrow> bool"
  checkIpReputation :: "string \<Rightarrow> IpReputation"
  ipInRange :: "string \<Rightarrow> string \<Rightarrow> bool"

definition placeholderLookups :: "(string \<Rightarrow> bool) \<Rightarrow> (string \<Rightarrow> string) \<Rightarrow> Lookups" where
  "placeholderLookups dns lower =
     \<lparr>resolveMx = dns,
      toLowerCase = lower,
      checkCarrierInfo = (\<lambda>phoneNumber. \<lparr>car_isValid = True, car_isVoip = False, car_isVirtual = False\<rparr>),
      isRecycledNumber = (\<lambda>phoneNumber. False),
      checkIpReputation = (\<lambda>ipAddress. \<lparr>rep_isVpn = False, rep_isProxy = False, rep_isTor = False,
                                         rep_country = Some ''US'', rep_isp = Some ''Unknown''\<rparr>),
      ipInRange = (\<lambda>ip range. False)\<rparr>"

subsection \<open>String helpers\<close>

text \<open>Strings are byte strings here. A pattern under flag \<open>i\<close> whose letters are ASCII
  matches ASCII letters only, so folding the letters \<open>A\<close> to \<open>Z\<close> is all it needs;
  \<open>asciiLowerCase\<close> is what \<open>toLowerCase\<close> does on a string of ASCII characters.\<close>

definition isDigit :: "char \<Rightarrow> bool" where
  "isDigit c \<longleftrightarrow> c \<in> set ''0123456789''"

definition toLowerChar :: "char \<Rightarrow> char" where
  "toLowerChar c =
     (case map_of (zip ''ABCDEFGHIJKLMNOPQRSTUVWXYZ'' ''abcdefghijklmnopqrstuvwxyz'') c of
        None \<Rightarrow> c | Some l \<Rightarrow> l)"

definition asciiLowerCase :: "string \<Rightarrow> string" where
  "asciiLowerCase s = map toLowerChar s"

text \<open>\<open>s.split(sep)\<close> for a one-character separator.\<close>

fun splitOn :: "char \<Rightarrow> string \<Rightarrow> string list" where
  "splitOn sep [] = [[]]"
| "splitOn sep (c # cs) =
     (if c = sep then [] # splitOn sep cs
      else (case splitOn sep cs of [] \<Rightarrow> [[c]] | p # ps \<Rightarrow> (c # p) # ps))"

text \<open>\<open>email.split('@')[1]\<close>, \<open>undefined\<close> when there is no second piece.\<close>

definition emailDomain :: "string \<Rightarrow> string option" where
  "emailDomain email = (case splitOn CHR ''@'' email of p # d # rest \<Rightarrow> Some d | _ \<Rightarrow> None)"

text \<open>A pattern without anchor matches when it matches at some position.\<close>

fun anywhere :: "(string \<Rightarrow> bool) \<Rightarrow> string \<Rightarrow> bool" where
  "anywhere P [] = P []"
| "anywhere P (c # cs) = (P (c # cs) \<or> anywhere P cs)"

text \<open>A literal pattern under flag \<open>i\<close>, matched at the start of the text.\<close>

fun literalCI :: "string \<Rightarrow> string \<Rightarrow> bool" where
  "literalCI [] s = True"
| "literalCI (p # ps) [] = False"
| "literalCI (p # ps) (c # cs) = (toLowerChar c = toLowerChar p \<and> literalCI ps cs)"

text \<open>\<open>[0-9]{n,}@\<close> matched at the start of the text: the run of digits there has at least
  \<open>n\<close> members and an \<open>@\<close> follows it.\<close>

definition digitsThenAt :: "nat \<Rightarrow> string \<Rightarrow> bool" where
  "digitsThenAt n s \<longleftrightarrow>
     n \<le> length (takeWhile isDigit s)
     \<and> (case dropWhile isDigit s of [] \<Rightarrow> False | c # cs \<Rightarrow> c = CHR ''@'')"

subsection \<open>Heuristics\<close>

definition disposableEmailDomains :: "string list" where
  "disposableEmailDomains =
     [''tempmail.com'', ''guerrillamail.com'', ''10minutemail.com'', ''mailinator.com'',
      ''throwaway.email'', ''temp-mail.org'', ''yopmail.com'', ''maildrop.cc'', ''trashmail.com'',
      ''fakeinbox.com'', ''temp-mail.io'', ''sharklasers.com'', ''spam4.me'', ''mailnesia.com'',
      ''tempmail.net'']"

definition blacklistedIpRanges :: "string list" where
  "blacklistedIpRanges = [''192.0.2.0/24'', ''198.51.100.0/24'', ''203.0.113.0/24'']"

definition highRiskCountries :: "string list" where
  "highRiskCountries = [''KP'', ''IR'', ''SY'', ''CU'']"

definition isDisposableEmail :: "Lookups \<Rightarrow> string \<Rightarrow> bool" where
  "isDisposableEmail lk email =
     (case emailDomain email of
        None \<Rightarrow> False
      | Some d \<Rightarrow> toLowerCase lk d \<in> set disposableEmailDomains)"

definition validateMxRecord :: "Lookups \<Rightarrow> string \<Rightarrow> bool" where
  "validateMxRecord lk email =
     (case emailDomain email of None \<Rightarrow> False | Some d \<Rightarrow> resolveMx lk d)"

definition hasSpamPatterns :: "string \<Rightarrow> bool" where
  "hasSpamPatterns email \<longleftrightarrow>
     digitsThenAt 1 email
     \<or> anywhere (literalCI ''test'') email
     \<or> anywhere (literalCI ''fake'') email
     \<or> anywhere (literalCI ''spam'') email
     \<or> anywhere (literalCI ''noreply'') email
     \<or> anywhere (literalCI ''admin@admin'') email
     \<or> anywhere (digitsThenAt 10) email"

definition isValidPhoneFormat :: "string \<Rightarrow> bool" where
  "isValidPhoneFormat phoneNumber =
     (let digitsOnly = filter isDigit phoneNumber
      in length digitsOnly \<ge> 10 \<and> length digitsOnly \<le> 15)"

definition isBlacklistedIp :: "Lookups \<Rightarrow> string \<Rightarrow> bool" where
  "isBlacklistedIp lk ipAddress = list_ex (\<lambda>range. ipInRange lk ipAddress range) blacklistedIpRanges"

subsection \<open>The fraud log\<close>

text \<open>The rows \<open>logFraudAttempt\<close> writes, with the columns it sets. The method also passes
  a property \<open>timestamp\<close>; table \<open>fraud_logs\<close> has no such column, in the entity or
  in the migration, so the property is dropped and the row is dated by \<open>createdAt\<close>.\<close>

record FraudLog =
  log_ipAddress :: string
  log_email :: string
  log_phone :: string
  log_reason :: FraudReason
  log_details :: "details option"
  log_createdAt :: time

definition logFraudAttempt ::
  "FraudLog list \<Rightarrow> string \<Rightarrow> string \<Rightarrow> string \<Rightarrow> FraudReason \<Rightarrow> details option \<Rightarrow> time \<Rightarrow> FraudLog list" where
  "logFraudAttempt logs ipAddress email phone reason dets now =
     logs @ [\<lparr>log_ipAddress = ipAddress, log_email = email, log_phone = phone,
              log_reason = reason, log_details = dets, log_createdAt = now\<rparr>]"

text \<open>The count query of \<open>checkBruteforceAttempt\<close> filters on \<open>fraud.timestamp\<close>. As the
  table has no such column, the store rejects the query, whatever the log holds.\<close>

definition countBruteforceLogs :: "FraudLog list \<Rightarrow> string \<Rightarrow> time \<Rightarrow> error + nat" where
  "countBruteforceLogs logs ipAddress timeThreshold =
     Inl (QueryFailedError ''column fraud.timestamp does not exist'')"

text \<open>The method of \<open>FraudDetectionService\<close>; the one of \<open>DualVerificationService\<close> keeps
  the plain name below. Its \<open>catch\<close> answers false.\<close>

definition checkBruteforceAttempt_log :: "FraudLog list \<Rightarrow> string \<Rightarrow> string \<Rightarrow> int \<Rightarrow> time \<Rightarrow> bool" where
  "checkBruteforceAttempt_log logs ipAddress email timeWindowMinutes now =
     (let timeThreshold = now - timeWindowMinutes * 60 * 1000
      in case countBruteforceLogs logs ipAddress timeThreshold of
           Inl e \<Rightarrow> False
         | Inr attemptCount \<Rightarrow> attemptCount \<ge> 5)"

definition checkMultipleAccountsFromIp :: "FraudLog list \<Rightarrow> string \<Rightarrow> nat" where
  "checkMultipleAccountsFromIp logs ipAddress =
     length (filter (\<lambda>l. log_ipAddress l = ipAddress \<and> log_reason l = MULTIPLE_ACCOUNTS_SAME_IP) logs)"

subsection \<open>Scoring\<close>

text \<open>The three local variables of a check: \<open>reasons\<close>, \<open>fraudScore\<close>, \<open>details\<close>.
  The second argument of \<open>checkPhoneFraud\<close>, a country code the method never reads, is
  left out.\<close>

record Tally =
  t_reasons :: "FraudReason list"
  t_score :: int
  t_details :: details

definition emptyTally :: Tally where
  "emptyTally = \<lparr>t_reasons = [], t_score = 0, t_details = []\<rparr>"

text \<open>\<open>reasons.push(r); fraudScore += w; details.k = v\<close>.\<close>

definition flag :: "FraudReason \<Rightarrow> int \<Rightarrow> string \<Rightarrow> detail \<Rightarrow> Tally \<Rightarrow> Tally" where
  "flag r w k v t =
     \<lparr>t_reasons = t_reasons t @ [r], t_score = t_score t + w,
      t_details = AList.update k v (t_details t)\<rparr>"

definition note_detail :: "string \<Rightarrow> detail \<Rightarrow> Tally \<Rightarrow> Tally" where
  "note_detail k v t = t\<lparr>t_details := AList.update k v (t_details t)\<rparr>"

text \<open>The \<open>return\<close> statement shared by the three checks.\<close>

definition verdict :: "Tally \<Rightarrow> FraudCheckResult" where
  "verdict t =
     \<lparr>isFraud = (t_score t \<ge> 50), fraudScore = min (t_score t) 100,
      reasons = t_reasons t, details = t_details t\<rparr>"

definition checkEmailFraud :: "Lookups \<Rightarrow> string \<Rightarrow> FraudCheckResult" where
  "checkEmailFraud lk email =
     (let t1 = (if isDisposableEmail lk email
                then flag DISPOSABLE_EMAIL 40 ''disposableEmail'' (DBool True) emptyTally
                else emptyTally);
          hasMxRecord = validateMxRecord lk email;
          t2 = (if \<not> hasMxRecord
                then flag INVALID_MX_RECORD 50 ''validMxRecord'' (DBool False) t1
                else note_detail ''validMxRecord'' (DBool True) t1);
          t3 = (if hasSpamPatterns email
                then flag FAKE_EMAIL 30 ''spamPatterns'' (DBool True) t2
                else t2)
      in verdict t3)"

definition checkPhoneFraud :: "Lookups \<Rightarrow> string \<Rightarrow> FraudCheckResult" where
  "checkPhoneFraud lk phoneNumber =
     (let t1 = (if \<not> isValidPhoneFormat phoneNumber
                then flag FAKE_PHONE 40 ''validFormat'' (DBool False) emptyTally
                else note_detail ''validFormat'' (DBool True) emptyTally);
          carrierInfo = checkCarrierInfo lk phoneNumber;
          t2 = (if \<not> car_isValid carrierInfo
                then flag INVALID_CARRIER 50 ''carrierValid'' (DBool False) t1
                else
                  (let u1 = note_detail ''carrierValid'' (DBool True) t1;
                       u2 = (if car_isVoip carrierInfo
                             then flag VOIP_NUMBER 60 ''isVoip'' (DBool True) u1 else u1)
                   in if car_isVirtual carrierInfo
                      then flag VIRTUAL_SIM 70 ''isVirtual'' (DBool True) u2 else u2));
          t3 = (if isRecycledNumber lk phoneNumber
                then flag FAKE_PHONE 35 ''recycledNumber'' (DBool True) t2
                else t2)
      in verdict t3)"

definition checkIpFraud :: "Lookups \<Rightarrow> FraudLog list \<Rightarrow> string \<Rightarrow> string option \<Rightarrow> time \<Rightarrow> FraudCheckResult" where
  "checkIpFraud lk logs ipAddress email now =
     (let t1 = (if isBlacklistedIp lk ipAddress
                then flag BLACKLISTED_IP 100 ''blacklisted'' (DBool True) emptyTally
                else emptyTally);
          ipReputation = checkIpReputation lk ipAddress;
          t2 = (if rep_isVpn ipReputation then flag VPN_IP 40 ''isVpn'' (DBool True) t1 else t1);
          t3 = (if rep_isProxy ipReputation then flag PROXY_IP 40 ''isProxy'' (DBool True) t2 else t2);
          t4 = (if rep_isTor ipReputation then flag TOR_IP 80 ''isTor'' (DBool True) t3 else t3);
          t5 = (if truthy (rep_country ipReputation)
                   \<and> orEmpty (rep_country ipReputation) \<in> set highRiskCountries
                then flag HIGH_RISK_COUNTRY 50 ''highRiskCountry'' (DString (rep_country ipReputation)) t4
                else t4);
          bruteforceDetected = checkBruteforceAttempt_log logs ipAddress (orEmpty email) 15 now;
          t6 = (if bruteforceDetected
                then flag BRUTEFORCE_ATTEMPT 60 ''bruteforceDetected'' (DBool True) t5
                else t5);
          t7 = (if truthy email
                then (let accountCount = checkMultipleAccountsFromIp logs ipAddress
                      in if accountCount \<ge> 3
                         then flag MULTIPLE_ACCOUNTS_SAME_IP 50 ''multipleAccounts''
                                (DNumber (int accountCount)) t6
                         else t6)
                else t6);
          t8 = note_detail ''ipAddress'' (DString (Some ipAddress))
                 (note_detail ''isp'' (DString (rep_isp ipReputation))
                   (note_detail ''country'' (DString (rep_country ipReputation)) t7))
      in verdict t8)"

section \<open>The user entity\<close>

datatype UserRole = SUPER_ADMIN | ADMIN | MODERATOR | SUPPORT | USER

datatype UserStatus = ACTIVE | INACTIVE | SUSPENDED | PENDING_VERIFICATION

text \<open>A row of table \<open>users\<close>, without \<open>metadata\<close>, the three date columns the store
  maintains and the relations.\<close>

record User =
  user_id :: nat
  user_firstName :: string
  user_lastName :: string
  user_email :: string
  user_phone :: "string option"
  user_password :: string
  user_role :: UserRole
  user_status :: UserStatus
  user_emailVerified :: bool
  user_phoneVerified :: bool
  user_mfaEnabled :: bool
  user_mfaSecret :: "string option"
  user_refreshToken :: "string option"
  user_lastLoginAt :: "time option"
  user_lastLoginIp :: "string option"
  user_failedLoginAttempts :: int
  user_lockedUntil :: "time option"

definition isAccountLocked :: "User \<Rightarrow> time \<Rightarrow> bool" where
  "isAccountLocked u now = (case user_lockedUntil u of None \<Rightarrow> False | Some t \<Rightarrow> t > now)"

definition canAttemptLogin :: "User \<Rightarrow> time \<Rightarrow> bool" where
  "canAttemptLogin u now \<longleftrightarrow> user_status u = ACTIVE \<and> \<not> isAccountLocked u now"

definition findUserByEmail :: "User list \<Rightarrow> string \<Rightarrow> User option" where
  "findUserByEmail us email = find (\<lambda>u. user_email u = email) us"

section \<open>\<open>DualVerificationService\<close>\<close>

record VerificationStatus =
  emailVerified :: bool
  phoneVerified :: bool
  fraudCheckPassed :: bool
  ipClean :: bool
  sessionValid :: bool
  canLogin :: bool
  failureReasons :: "string list"

record LoginAttemptRecord =
  att_ipAddress :: string
  att_email :: string
  att_timestamp :: time
  att_success :: bool
  att_reason :: "string option"

record DeviceInfo =
  dev_lastSeen :: time
  dev_attempts :: int

type_synonym LoginAttempts = "(string \<times> LoginAttemptRecord list) list"

type_synonym DeviceFingerprints = "(string \<times> DeviceInfo) list"

text \<open>Everything \<open>checkLoginEligibility\<close> reaches: the two tables, the fraud log, and the
  maps of the block service and of the verification service itself.\<close>

record Stores =
  users :: "User list"
  otpRepository :: OtpRepository
  fraudLogs :: "FraudLog list"
  blockedIps :: BlockedIps
  loginAttempts :: LoginAttempts
  deviceFingerprints :: DeviceFingerprints

text \<open>The key \<open>`${email}:${ipAddress}`\<close>.\<close>

definition attemptKey :: "string \<Rightarrow> string \<Rightarrow> string" where
  "attemptKey email ipAddress = email @ '':'' @ ipAddress"

definition attemptsOf :: "LoginAttempts \<Rightarrow> string \<Rightarrow> LoginAttemptRecord list" where
  "attemptsOf m key = (case map_of m key of None \<Rightarrow> [] | Some as \<Rightarrow> as)"

definition recordLoginAttempt ::
  "LoginAttempts \<Rightarrow> string \<Rightarrow> string \<Rightarrow> bool \<Rightarrow> string option \<Rightarrow> time \<Rightarrow> LoginAttempts" where
  "recordLoginAttempt m email ipAddress success reason now =
     (let key = attemptKey email ipAddress;
          attempts = attemptsOf m key
                     @ [\<lparr>att_ipAddress = ipAddress, att_email = email, att_timestamp = now,
                         att_success = success, att_reason = reason\<rparr>];
          oneDayAgo = now - 24 * 60 * 60 * 1000;
          recentAttempts = filter (\<lambda>a. att_timestamp a > oneDayAgo) attempts
      in AList.update key recentAttempts m)"

text \<open>\<open>attempts.slice(-5)\<close>.\<close>

definition lastFive :: "'a list \<Rightarrow> 'a list" where
  "lastFive xs = drop (length xs - 5) xs"

definition checkBruteforceAttempt :: "LoginAttempts \<Rightarrow> string \<Rightarrow> string \<Rightarrow> time \<Rightarrow> bool" where
  "checkBruteforceAttempt m email ipAddress now =
     (let key = attemptKey email ipAddress;
          attempts = attemptsOf m key;
          fifteenMinutesAgo = now - 15 * 60 * 1000;
          recentFailedAttempts =
            filter (\<lambda>a. \<not> att_success a \<and> att_timestamp a > fifteenMinutesAgo) attempts
      in if length attempts \<ge> 5
            \<and> (let lastFiveAttempts = lastFive attempts;
                     timeDiff = att_timestamp (lastFiveAttempts ! 4)
                                - att_timestamp (lastFiveAttempts ! 0)
                 in timeDiff < 30 * 1000)
         then True
         else length recentFailedAttempts \<ge> 5)"

definition isDeviceTrusted :: "DeviceFingerprints \<Rightarrow> string \<Rightarrow> string \<Rightarrow> time \<Rightarrow> bool \<times> DeviceFingerprints" where
  "isDeviceTrusted devs deviceFingerprint email now =
     (case map_of devs deviceFingerprint of
        None \<Rightarrow>
          (False, AList.update deviceFingerprint \<lparr>dev_lastSeen = now, dev_attempts = 1\<rparr> devs)
      | Some deviceInfo \<Rightarrow>
          (True, AList.update deviceFingerprint
                   \<lparr>dev_lastSeen = now, dev_attempts = dev_attempts deviceInfo + 1\<rparr> devs))"

text \<open>\<open>reasons.join(', ')\<close> on the enum values.\<close>

fun joinReasons :: "FraudReason list \<Rightarrow> string" where
  "joinReasons [] = []"
| "joinReasons [r] = reasonValue r"
| "joinReasons (r # rs) = reasonValue r @ '', '' @ joinReasons rs"

text \<open>\<open>failureReasons.push(m)\<close> on the verdict being built.\<close>

definition fail :: "string \<Rightarrow> VerificationStatus \<Rightarrow> VerificationStatus" where
  "fail m v = v\<lparr>failureReasons := failureReasons v @ [m]\<rparr>"

text \<open>The five \<open>let\<close> variables and the reason list of the method are the fields of the
  verdict being built; \<open>canLogin\<close> is set by the last step. Each numbered step of the source
  is one binding. The \<open>catch\<close> of the method, for an exception of the store, is not
  reached in the model.\<close>

definition checkLoginEligibility ::
  "Lookups \<Rightarrow> Stores \<Rightarrow> string \<Rightarrow> string \<Rightarrow> string option \<Rightarrow> time \<Rightarrow> VerificationStatus \<times> Stores" where
  "checkLoginEligibility lk st email ipAddress deviceFingerprint now =
     (case findUserByEmail (users st) email of
        None \<Rightarrow>
          (\<lparr>emailVerified = False, phoneVerified = False, fraudCheckPassed = False,
            ipClean = False, sessionValid = False, canLogin = False,
            failureReasons = [''User not found'']\<rparr>, st)
      | Some user \<Rightarrow>
          (let v0 = \<lparr>emailVerified = False, phoneVerified = False, fraudCheckPassed = True,
                     ipClean = True, sessionValid = True, canLogin = False, failureReasons = []\<rparr>;
               blocked = isIpBlocked (blockedIps st) ipAddress now;
               st2 = st\<lparr>blockedIps := snd blocked\<rparr>;
               v2 = (if fst blocked
                     then fail ''IP address is blocked due to suspicious activity'' (v0\<lparr>ipClean := False\<rparr>)
                     else v0);
               v3a = v2\<lparr>emailVerified := isEmailVerified (otpRepository st2) email\<rparr>;
               v3 = (if \<not> emailVerified v3a then fail ''Email not verified'' v3a else v3a);
               v4 = (if truthy (user_phone user)
                     then (let v4a = v3\<lparr>phoneVerified :=
                                        isPhoneVerified (otpRepository st2) (orEmpty (user_phone user))\<rparr>
                           in if \<not> phoneVerified v4a then fail ''Mobile number not verified'' v4a else v4a)
                     else v3);
               ipFraudCheck = checkIpFraud lk (fraudLogs st2) ipAddress (Some email) now;
               v5 = (if isFraud ipFraudCheck
                     then fail (''IP fraud detected: '' @ joinReasons (reasons ipFraudCheck))
                            (v4\<lparr>ipClean := False, fraudCheckPassed := False\<rparr>)
                     else v4);
               st5 = (if isFraud ipFraudCheck
                      then st2\<lparr>fraudLogs :=
                             logFraudAttempt (fraudLogs st2) ipAddress email (orEmpty (user_phone user))
                               (case reasons ipFraudCheck of [] \<Rightarrow> BLACKLISTED_IP | r # rs \<Rightarrow> r)
                               (Some (details ipFraudCheck)) now\<rparr>
                      else st2);
               bruteforceDetected = checkBruteforceAttempt (loginAttempts st5) email ipAddress now;
               v6 = (if bruteforceDetected
                     then (fail ''Too many login attempts. Please try again later.''
                             (v5\<lparr>fraudCheckPassed := False\<rparr>))\<lparr>ipClean := False\<rparr>
                     else v5);
               st6 = (if bruteforceDetected
                      then st5\<lparr>blockedIps :=
                             snd (blockIp (blockedIps st5) ipAddress ''Bruteforce attack detected'' 24 now)\<rparr>
                      else st5);
               trusted = (if truthy deviceFingerprint
                          then isDeviceTrusted (deviceFingerprints st6) (orEmpty deviceFingerprint) email now
                          else (True, deviceFingerprints st6));
               st7 = st6\<lparr>deviceFingerprints := snd trusted\<rparr>;
               v7 = (if \<not> fst trusted
                     then (fail ''Unrecognized device. Additional verification required.'' v6)
                            \<lparr>sessionValid := False\<rparr>
                     else v6);
               v8 = (if user_status user = SUSPENDED
                     then (fail ''Account is temporarily locked. Please contact support.'' v7)
                            \<lparr>sessionValid := False\<rparr>
                     else v7);
               v9 = (if (case user_lockedUntil user of None \<Rightarrow> False | Some t \<Rightarrow> now < t)
                     then (fail ''Account is temporarily frozen due to security concerns.'' v8)
                            \<lparr>sessionValid := False\<rparr>
                     else v8)
           in (v9\<lparr>canLogin := emailVerified v9 \<and> phoneVerified v9 \<and> fraudCheckPassed v9
                                \<and> ipClean v9 \<and> sessionValid v9\<rparr>, st7)))"

section \<open>\<open>AuthService.signin\<close>\<close>

record LoginDto =
  dto_email :: string
  dto_password :: string
  dto_mfaCode :: "string option"

record JwtPayload =
  jwt_sub :: nat
  jwt_email :: string
  jwt_role :: UserRole

record UserView =
  view_id :: nat
  view_email :: string
  view_firstName :: string
  view_lastName :: string
  view_role :: UserRole

record Tokens =
  accessToken :: string
  refreshToken :: string
  tokenUser :: UserView

text \<open>Libraries the service calls: \<open>bcrypt.compare\<close> and \<open>bcrypt.hash\<close> with cost 10,
  whose hashes have 60 characters, \<open>speakeasy.totp.verify\<close> on a secret, a token and a
  window at an instant, and the signer of \<open>JwtService\<close> on a payload and a lifetime.\<close>

record Libraries =
  bcryptCompare :: "string \<Rightarrow> string \<Rightarrow> bool"
  bcryptHash :: "string \<Rightarrow> string"
  totpVerify :: "string option \<Rightarrow> string \<Rightarrow> nat \<Rightarrow> time \<Rightarrow> bool"
  jwtSign :: "JwtPayload \<Rightarrow> string \<Rightarrow> string"

text \<open>The entity's hook before insert and update.\<close>

definition hashPassword :: "Libraries \<Rightarrow> User \<Rightarrow> User" where
  "hashPassword lib u =
     (if user_password u \<noteq> [] \<and> take 2 (user_password u) \<noteq> ''$2''
      then u\<lparr>user_password := bcryptHash lib (user_password u)\<rparr> else u)"

definition validatePassword :: "Libraries \<Rightarrow> User \<Rightarrow> string \<Rightarrow> bool" where
  "validatePassword lib u password = bcryptCompare lib password (user_password u)"

definition saveUser :: "Libraries \<Rightarrow> User \<Rightarrow> User list \<Rightarrow> User list" where
  "saveUser lib u us = map (\<lambda>r. if user_id r = user_id u then hashPassword lib u else r) us"

text \<open>An update writes the columns that changed, and the store rejects it when a string is
  longer than its column: \<open>refreshToken\<close> is \<open>varchar(255)\<close> and \<open>lastLoginIp\<close> is
  \<open>varchar(45)\<close>. Nothing catches the error, so the method ends with it.\<close>

definition generateTokens :: "Libraries \<Rightarrow> User list \<Rightarrow> User \<Rightarrow> (error + Tokens) \<times> User list" where
  "generateTokens lib us user =
     (let payload = \<lparr>jwt_sub = user_id user, jwt_email = user_email user, jwt_role = user_role user\<rparr>;
          access = jwtSign lib payload ''15m'';
          refresh = jwtSign lib payload ''7d'';
          user1 = user\<lparr>user_refreshToken := Some refresh\<rparr>
      in if length refresh > 255
         then (Inl (QueryFailedError ''value too long for type character varying(255)''), us)
         else (Inr \<lparr>accessToken = access, refreshToken = refresh,
                    tokenUser = \<lparr>view_id = user_id user1, view_email = user_email user1,
                                 view_firstName = user_firstName user1,
                                 view_lastName = user_lastName user1,
                                 view_role = user_role user1\<rparr>\<rparr>,
               saveUser lib user1 us))"

definition signin :: "Libraries \<Rightarrow> User list \<Rightarrow> LoginDto \<Rightarrow> string \<Rightarrow> time \<Rightarrow> (error + Tokens) \<times> User list" where
  "signin lib us loginDto ipAddress now =
     (case findUserByEmail us (dto_email loginDto) of
        None \<Rightarrow> (Inl (UnauthorizedException ''Invalid credentials''), us)
      | Some user \<Rightarrow>
          if \<not> canAttemptLogin user now then
            (Inl (UnauthorizedException ''Account is locked or inactive. Please contact support.''), us)
          else if \<not> validatePassword lib user (dto_password loginDto) then
            (let user1 = user\<lparr>user_failedLoginAttempts := user_failedLoginAttempts user + 1\<rparr>;
                 user2 = (if user_failedLoginAttempts user1 \<ge> 5
                          then user1\<lparr>user_lockedUntil := Some (now + 15 * 60 * 1000),
                                     user_status := SUSPENDED\<rparr>
                          else user1)
             in (Inl (UnauthorizedException ''Invalid credentials''), saveUser lib user2 us))
          else if user_mfaEnabled user \<and> \<not> truthy (dto_mfaCode loginDto) then
            (Inl (BadRequestException ''MFA code required''), us)
          else if user_mfaEnabled user
                  \<and> \<not> totpVerify lib (user_mfaSecret user) (orEmpty (dto_mfaCode loginDto)) 2 now then
            (Inl (UnauthorizedException ''Invalid MFA code''), us)
          else
            (let user1 = user\<lparr>user_failedLoginAttempts := 0, user_lockedUntil := None,
                              user_lastLoginAt := Some now, user_lastLoginIp := Some ipAddress,
                              user_status := ACTIVE\<rparr>
             in if length ipAddress > 45
                then (Inl (QueryFailedError ''value too long for type character varying(45)''), us)
                else generateTokens lib (saveUser lib user1 us) (hashPassword lib user1)))"

section \<open>Notions used to state the properties\<close>

subsection \<open>Reading a decimal string back\<close>

definition digitVal :: "char \<Rightarrow> nat" where
  "digitVal c = of_char c - 48"

definition fromDecimal :: "string \<Rightarrow> nat" where
  "fromDecimal s = foldl (\<lambda>a c. 10 * a + digitVal c) 0 s"

subsection \<open>The two rules of the login-attempt tracker, as the specification words them\<close>

text \<open>The number of failed attempts of a key that fall within the last 15 minutes.\<close>

definition failedWithin15Minutes :: "LoginAttemptRecord list \<Rightarrow> time \<Rightarrow> nat" where
  "failedWithin15Minutes attempts now =
     length (filter (\<lambda>a. \<not> att_success a \<and> now - 15 * 60 * 1000 < att_timestamp a) attempts)"

text \<open>The time from the fifth-last attempt of a key to its last one, whatever their
  outcomes.\<close>

definition lastFiveSpan :: "LoginAttemptRecord list \<Rightarrow> int" where
  "lastFiveSpan attempts =
     att_timestamp (last attempts) - att_timestamp (attempts ! (length attempts - 5))"

subsection \<open>An invariant of the OTP table\<close>

text \<open>A row is marked failed only when its attempts are used up.\<close>

definition failedRowsExhausted :: "OtpRepository \<Rightarrow> bool" where
  "failedRowsExhausted repo \<longleftrightarrow>
     (\<forall>r \<in> set (otp_rows repo). otp_status r = FAILED \<longrightarrow> otp_maxAttempts r \<le> otp_attempts r)"

subsection \<open>Scenarios\<close>

text \<open>A code is issued for \<open>a@b.com\<close> at instant 0 on an empty table (\<open>issuedOnce\<close>); a
  second one is issued for the same purpose and address ten seconds later
  (\<open>issuedTwice\<close>); or the first is verified with its own code after twenty seconds
  (\<open>issuedAndVerified\<close>).\<close>

definition issuedOnce :: OtpRepository where
  "issuedOnce =
     snd (generateOtp \<lparr>otp_rows = [], otp_nextId = 0\<rparr> EMAIL_VERIFICATION
            (Some ''a@b.com'') None None None 0 0)"

definition issuedTwice :: OtpRepository where
  "issuedTwice =
     snd (generateOtp issuedOnce EMAIL_VERIFICATION (Some ''a@b.com'') None None None (1 / 2) 10000)"

definition issuedAndVerified :: OtpRepository where
  "issuedAndVerified = snd (verifyOtp issuedOnce 0 ''100000'' EMAIL_VERIFICATION 20000)"

text \<open>An active account without a phone number whose email address has been verified, and
  nothing else on record.\<close>

definition alice :: User where
  "alice =
     \<lparr>user_id = 1, user_firstName = ''Alice'', user_lastName = ''Khan'',
      user_email = ''alice@example.org'', user_phone = None, user_password = ''$2b$10$stored'',
      user_role = USER, user_status = ACTIVE, user_emailVerified = True,
      user_phoneVerified = False, user_mfaEnabled = False, user_mfaSecret = None,
      user_refreshToken = None, user_lastLoginAt = None, user_lastLoginIp = None,
      user_failedLoginAttempts = 0, user_lockedUntil = None\<rparr>"

definition aliceStores :: Stores where
  "aliceStores =
     \<lparr>users = [alice],
      otpRepository =
        \<lparr>otp_rows =
           [\<lparr>otp_id = 0, otp_userId = None, otp_email = Some ''alice@example.org'',
             otp_phone = None, otp_code = ''100000'', otp_purpose = EMAIL_VERIFICATION,
             otp_status = VERIFIED, otp_attempts = 0, otp_maxAttempts = 3,
             otp_expiresAt = 60000, otp_ipAddress = None, otp_createdAt = 0,
             otp_verifiedAt = Some 1000\<rparr>],
         otp_nextId = 1\<rparr>,
      fraudLogs = [], blockedIps = [], loginAttempts = [], deviceFingerprints = []\<rparr>"

text \<open>An account with four failed logins on record and one with a second factor, and
  stand-ins for the libraries: a hash that prefixes the password, a verifier that accepts
  one code for one secret under window 2, a signer that spells out what it signs.\<close>

definition bob :: User where
  "bob =
     \<lparr>user_id = 2, user_firstName = ''Bob'', user_lastName = ''Malik'',
      user_email = ''bob@example.org'', user_phone = None, user_password = ''$2b$right-horse'',
      user_role = USER, user_status = ACTIVE, user_emailVerified = True,
      user_phoneVerified = False, user_mfaEnabled = False, user_mfaSecret = None,
      user_refreshToken = None, user_lastLoginAt = None, user_lastLoginIp = None,
      user_failedLoginAttempts = 4, user_lockedUntil = None\<rparr>"

definition carol :: User where
  "carol =
     \<lparr>user_id = 3, user_firstName = ''Carol'', user_lastName = ''Shah'',
      user_email = ''carol@example.org'', user_phone = None, user_password = ''$2b$right-horse'',
      user_role = USER, user_status = ACTIVE, user_emailVerified = True,
      user_phoneVerified = False, user_mfaEnabled = True, user_mfaSecret = Some ''JBSWY3DP'',
      user_refreshToken = None, user_lastLoginAt = None, user_lastLoginIp = None,
      user_failedLoginAttempts = 2, user_lockedUntil = None\<rparr>"

definition standIns :: Libraries where
  "standIns =
     \<lparr>bcryptCompare = (\<lambda>password hash. hash = ''$2b$'' @ password),
      bcryptHash = (\<lambda>password. ''$2b$'' @ password),
      totpVerify = (\<lambda>secret token window now.
                     secret = Some ''JBSWY3DP'' \<and> token = ''492039'' \<and> window = 2),
      jwtSign = (\<lambda>payload lifetime. jwt_email payload @ ''/'' @ lifetime)\<rparr>"

section \<open>Codes issued by \<open>generateRandomCode\<close>\<close>

lemma digit_cases:
  assumes "(d::nat) < 10"
  obtains "d = 0" | "d = 1" | "d = 2" | "d = 3" | "d = 4"
    | "d = 5" | "d = 6" | "d = 7" | "d = 8" | "d = 9"
proof -
  from assms
  have "d = 0 \<or> d = 1 \<or> d = 2 \<or> d = 3 \<or> d = 4 \<or> d = 5 \<or> d = 6 \<or> d = 7 \<or> d = 8 \<or> d = 9"
    by arith
  then show thesis using that by blast
qed

lemma digitVal_digitChar: "d < 10 \<Longrightarrow> digitVal (digitChar d) = d"
  by (erule digit_cases) (simp_all add: digitVal_def digitChar_def)

lemma digitChar_isDigit: "d < 10 \<Longrightarrow> isDigit (digitChar d)"
  by (erule digit_cases) (simp_all add: digitChar_def isDigit_def)

lemma digitChar_zero: "d < 10 \<Longrightarrow> digitChar d = CHR ''0'' \<longleftrightarrow> d = 0"
  by (erule digit_cases) (simp_all add: digitChar_def)

lemma fromDecimal_decimal: "fromDecimal (decimal n) = n"
proof (induction n rule: decimal.induct)
  case (1 n)
  show ?case
  proof (cases "n < 10")
    case True
    then show ?thesis
      by (subst decimal.simps) (simp add: fromDecimal_def digitVal_digitChar)
  next
    case False
    with 1 have "fromDecimal (decimal (n div 10)) = n div 10" by simp
    with False show ?thesis
      by (subst decimal.simps) (simp add: fromDecimal_def digitVal_digitChar)
  qed
qed

lemma decimal_inj: "decimal m = decimal n \<Longrightarrow> m = n"
  by (metis fromDecimal_decimal)

lemma decimal_all_digits: "list_all isDigit (decimal n)"
proof (induction n rule: decimal.induct)
  case (1 n)
  show ?case
  proof (cases "n < 10")
    case True
    then show ?thesis
      by (subst decimal.simps) (simp add: digitChar_isDigit)
  next
    case False
    with 1 have "list_all isDigit (decimal (n div 10))" by simp
    with False show ?thesis
      by (subst decimal.simps) (simp add: digitChar_isDigit)
  qed
qed

lemma decimal_length_hd:
  "10 ^ k \<le> n \<Longrightarrow> n < 10 ^ Suc k \<Longrightarrow> length (decimal n) = Suc k \<and> hd (decimal n) \<noteq> CHR ''0''"
proof (induction k arbitrary: n)
  case 0
  then have "n < 10" "n \<noteq> 0" by simp_all
  then show ?case
    by (subst (1 2) decimal.simps) (simp add: digitChar_zero)
next
  case (Suc k)
  have "(10::nat) \<le> 10 ^ Suc k" by simp
  from this Suc.prems(1) have "10 \<le> n" by (rule order_trans)
  then have big: "\<not> n < 10" by simp
  from Suc.prems have "10 ^ k \<le> n div 10" "n div 10 < 10 ^ Suc k"
    by (simp_all add: less_mult_imp_div_less mult.commute less_eq_div_iff_mult_less_eq)
  from Suc.IH [OF this]
  have ih: "length (decimal (n div 10)) = Suc k" "hd (decimal (n div 10)) \<noteq> CHR ''0''"
    by simp_all
  then have "decimal (n div 10) \<noteq> []" by auto
  with ih big show ?case
    by (subst (1 2) decimal.simps) simp
qed

subsection \<open>Rounding to a double\<close>

lemma roundTiesToEven_le: "y < of_int k + 1 / 2 \<Longrightarrow> roundTiesToEven y \<le> k"
  unfolding roundTiesToEven_def Let_def by (auto; linarith)

lemma roundTiesToEven_ge: "of_int k \<le> y \<Longrightarrow> k \<le> roundTiesToEven y"
  unfolding roundTiesToEven_def Let_def by (auto simp: le_floor_iff; linarith)

lemma roundTiesToEven_of_int: "roundTiesToEven (of_int k) = k"
  by (simp add: roundTiesToEven_def)

lemma powi_pos: "0 < (2::real) powi e"
  by simp

lemma powi_mono: "a \<le> b \<Longrightarrow> (2::real) powi a \<le> 2 powi b"
  by (simp add: power_int_increasing)

lemma powi_add1: "(2::real) powi (e + 1) = 2 * 2 powi e"
  by (simp add: power_int_add)

lemma powr_powi: "(2::real) powr (of_int e) = 2 powi e"
  by (simp add: powr_real_of_int')

lemma floor_log2_iff: "0 < x \<Longrightarrow> \<lfloor>log 2 x\<rfloor> = k \<longleftrightarrow> 2 powi k \<le> x \<and> x < 2 powi (k + 1)"
  using floor_log_eq_powr_iff [of x 2 k] powr_powi [of k] powr_powi [of "k + 1"]
  by simp

lemma binade_upper: "0 < x \<Longrightarrow> x < 2 powi (binade x + 1)"
proof -
  assume x: "0 < x"
  define k where "k = \<lfloor>log 2 x\<rfloor>"
  from x have "x < 2 powi (k + 1)" using floor_log2_iff [of x k] by (simp add: k_def)
  also have "\<dots> \<le> 2 powi (binade x + 1)"
    using x by (intro powi_mono) (simp add: binade_def k_def)
  finally show ?thesis .
qed

lemma binade_lower: "2 powi (- 1022) \<le> x \<Longrightarrow> 2 powi (binade x) \<le> x"
proof -
  assume n: "2 powi (- 1022) \<le> x"
  have "(0::real) < 2 powi (- 1022)" by (rule powi_pos)
  with n have x: "0 < x" by linarith
  define k where "k = \<lfloor>log 2 x\<rfloor>"
  from x have k: "2 powi k \<le> x" "x < 2 powi (k + 1)"
    using floor_log2_iff [of x k] by (simp_all add: k_def)
  have "- 1022 \<le> k"
  proof (rule ccontr)
    assume "\<not> - 1022 \<le> k"
    then have "k + 1 \<le> - 1022" by simp
    then have "(2::real) powi (k + 1) \<le> 2 powi (- 1022)" by (rule powi_mono)
    with k n show False by linarith
  qed
  then have "binade x = k" using x by (simp add: binade_def k_def)
  with k show ?thesis by simp
qed

lemma binade_le: "0 < x \<Longrightarrow> x < 2 powi (e + 1) \<Longrightarrow> - 1022 \<le> e \<Longrightarrow> binade x \<le> e"
proof -
  assume x: "0 < x" and u: "x < 2 powi (e + 1)" and e: "- 1022 \<le> e"
  define k where "k = \<lfloor>log 2 x\<rfloor>"
  from x have k: "2 powi k \<le> x" using floor_log2_iff [of x k] by (simp add: k_def)
  have "k \<le> e"
  proof (rule ccontr)
    assume "\<not> k \<le> e"
    then have "e + 1 \<le> k" by simp
    then have "(2::real) powi (e + 1) \<le> 2 powi k" by (rule powi_mono)
    with k u show False by linarith
  qed
  with e x show ?thesis by (simp add: binade_def k_def)
qed

lemma binade_ge: "0 < x \<Longrightarrow> 2 powi e \<le> x \<Longrightarrow> e \<le> binade x"
proof -
  assume x: "0 < x" and l: "2 powi e \<le> x"
  define k where "k = \<lfloor>log 2 x\<rfloor>"
  from x have k: "x < 2 powi (k + 1)" using floor_log2_iff [of x k] by (simp add: k_def)
  have "e \<le> k"
  proof (rule ccontr)
    assume "\<not> e \<le> k"
    then have "k + 1 \<le> e" by simp
    then have "(2::real) powi (k + 1) \<le> 2 powi e" by (rule powi_mono)
    with k l show False by linarith
  qed
  with x show ?thesis by (simp add: binade_def k_def)
qed

lemma double_nonneg: "0 \<le> x \<Longrightarrow> 0 \<le> double x"
proof (cases "x = 0")
  case True then show ?thesis by (simp add: double_def)
next
  case False
  assume "0 \<le> x"
  with False have "0 < x" by simp
  then have "of_int 0 \<le> x / ulp x" by (simp add: ulp_def)
  then have "0 \<le> roundTiesToEven (x / ulp x)" by (rule roundTiesToEven_ge)
  then show ?thesis using False by (simp add: double_def ulp_def)
qed

lemma double_le:
  assumes x: "0 < x" and u: "x < 2 powi (e + 1)" and e: "- 1022 \<le> e"
    and k: "2 ^ 52 \<le> k" and b: "x < (of_int k + 1 / 2) * 2 powi (e - 52)"
  shows "double x \<le> of_int k * 2 powi (e - 52)"
proof -
  define ex where "ex = binade x"
  define q :: real where "q = 2 powi (ex - 52)"
  have q: "0 < q" by (simp add: q_def)
  have d: "double x = of_int (roundTiesToEven (x / q)) * q"
    using x by (simp add: double_def ulp_def q_def ex_def)
  have le: "ex \<le> e" using binade_le [OF x u e] by (simp add: ex_def)
  show ?thesis
  proof (cases "ex = e")
    case True
    from b q have "x / q < of_int k + 1 / 2"
      by (simp add: True q_def pos_divide_less_eq)
    then have "roundTiesToEven (x / q) \<le> k" by (rule roundTiesToEven_le)
    then have "of_int (roundTiesToEven (x / q)) * q \<le> of_int k * q"
      using q by (simp add: mult_right_mono)
    then show ?thesis by (simp add: d q_def True)
  next
    case False
    with le have lt: "ex + 1 \<le> e" by simp
    have "x < 2 powi (ex + 1)" using binade_upper [OF x] by (simp add: ex_def)
    also have "(2::real) powi (ex + 1) = (2 ^ 53) * q"
      by (simp add: q_def power_int_diff power_int_add)
    finally have "x / q < of_int (2 ^ 53) + 1 / 2"
      using q by (simp add: pos_divide_less_eq)
    then have "roundTiesToEven (x / q) \<le> 2 ^ 53" by (rule roundTiesToEven_le)
    then have "of_int (roundTiesToEven (x / q)) * q \<le> of_int (2 ^ 53) * q"
      using q by (intro mult_right_mono) simp_all
    also have "of_int (2 ^ 53) * q = 2 powi (ex + 1)"
      by (simp add: q_def power_int_diff power_int_add)
    also have "\<dots> \<le> 2 powi e" using lt by (rule powi_mono)
    also have "(2::real) powi e = of_int (2 ^ 52) * 2 powi (e - 52)"
      by (simp add: power_int_diff)
    also have "\<dots> \<le> of_int k * (2::real) powi (e - 52)"
      using k by (intro mult_right_mono) simp_all
    finally show ?thesis by (simp add: d)
  qed
qed

lemma double_ge:
  assumes l: "2 powi e \<le> x" and e: "- 1022 \<le> e"
    and k: "k \<le> 2 ^ 53" and b: "of_int k * 2 powi (e - 52) \<le> x"
  shows "of_int k * 2 powi (e - 52) \<le> double x"
proof -
  have "(0::real) < 2 powi e" by (rule powi_pos)
  with l have x: "0 < x" by linarith
  define ex where "ex = binade x"
  define q :: real where "q = 2 powi (ex - 52)"
  have q: "0 < q" by (simp add: q_def)
  have d: "double x = of_int (roundTiesToEven (x / q)) * q"
    using x by (simp add: double_def ulp_def q_def ex_def)
  have ge: "e \<le> ex" using binade_ge [OF x l] by (simp add: ex_def)
  show ?thesis
  proof (cases "ex = e")
    case True
    from b q have "of_int k \<le> x / q"
      by (simp add: True q_def pos_le_divide_eq)
    then have "k \<le> roundTiesToEven (x / q)" by (rule roundTiesToEven_ge)
    then have "of_int k * q \<le> of_int (roundTiesToEven (x / q)) * q"
      using q by (simp add: mult_right_mono)
    then show ?thesis by (simp add: d q_def True)
  next
    case False
    with ge have lt: "e + 1 \<le> ex" by simp
    have "2 powi (- 1022) \<le> x"
      using powi_mono [OF e] l by linarith
    then have "2 powi ex \<le> x" using binade_lower by (simp add: ex_def)
    moreover have "(2::real) powi ex = (2 ^ 52) * q"
      by (simp add: q_def power_int_diff)
    ultimately have "of_int (2 ^ 52) \<le> x / q"
      using q by (simp add: pos_le_divide_eq)
    then have "2 ^ 52 \<le> roundTiesToEven (x / q)" by (rule roundTiesToEven_ge)
    then have "of_int (2 ^ 52) * q \<le> of_int (roundTiesToEven (x / q)) * q"
      using q by (intro mult_right_mono) simp_all
    then have "2 powi ex \<le> double x"
      by (simp add: d q_def power_int_diff)
    moreover have "(2::real) powi (e + 1) \<le> 2 powi ex" using lt by (rule powi_mono)
    moreover have "of_int k * (2::real) powi (e - 52) \<le> of_int (2 ^ 53) * 2 powi (e - 52)"
      using k by (intro mult_right_mono) simp_all
    moreover have "of_int (2 ^ 53) * (2::real) powi (e - 52) = (2::real) powi (e + 1)"
      by (simp add: power_int_diff power_int_add)
    ultimately show ?thesis by linarith
  qed
qed


lemma double_exact:
  assumes l: "2 powi e \<le> x" and u: "x < 2 powi (e + 1)" and e: "- 1022 \<le> e"
    and k: "x = of_int k * 2 powi (e - 52)"
  shows "double x = x"
proof -
  have "(0::real) < 2 powi e" by (rule powi_pos)
  with l have x: "0 < x" by linarith
  have "binade x = e"
    using binade_le [OF x u e] binade_ge [OF x l] by simp
  then have q: "ulp x = 2 powi (e - 52)" by (simp add: ulp_def)
  have "x / ulp x = of_int k" unfolding q by (simp add: k)
  then have "roundTiesToEven (x / ulp x) = k" by (simp add: roundTiesToEven_of_int)
  with x have "double x = of_int k * 2 powi (e - 52)" by (simp add: double_def q)
  with k show ?thesis by simp
qed

lemma double_100000: "double 100000 = 100000"
  by (rule double_exact [where e = 16 and k = "100000 * 2 ^ 36"]) (simp_all add: power_int_minus)

lemma double_450000: "double 450000 = 450000"
  by (rule double_exact [where e = 18 and k = "450000 * 2 ^ 34"]) (simp_all add: power_int_minus)

lemma double_550000: "double 550000 = 550000"
  by (rule double_exact [where e = 19 and k = "550000 * 2 ^ 33"]) (simp_all add: power_int_minus)

lemma double_below_one:
  assumes "isDouble r" and "r < 1"
  shows "r \<le> 1 - 1 / 2 ^ 53"
proof -
  from assms(1) obtain m e where m: "\<bar>m\<bar> < 2 ^ 53" and r: "r = of_int m * 2 powi e"
    by (auto simp: isDouble_def)
  show ?thesis
  proof (cases "- 53 \<le> e")
    case True
    define j where "j = m * 2 ^ nat (e + 53)"
    have "(2::real) powi (e + 53) = 2 powi e * 2 ^ 53"
      by (simp add: power_int_add)
    moreover have "(2::real) powi (e + 53) = 2 ^ nat (e + 53)"
      using True by (simp add: power_int_def)
    ultimately have "(2::real) powi e = 2 ^ nat (e + 53) / 2 ^ 53"
      by (simp add: field_simps)
    then have rj: "r = of_int j / 2 ^ 53"
      by (simp add: r j_def)
    with assms(2) have "of_int j < (2::real) ^ 53" by simp
    then have "j < 2 ^ 53" by simp
    then have "j \<le> 2 ^ 53 - 1" by simp
    then have "(of_int j :: real) \<le> of_int (2 ^ 53 - 1)" by (simp only: of_int_le_iff)
    then have "(of_int j :: real) \<le> 2 ^ 53 - 1" by simp
    then have "(of_int j :: real) / 2 ^ 53 \<le> (2 ^ 53 - 1) / 2 ^ 53"
      by (rule divide_right_mono) simp
    then show ?thesis by (simp add: rj diff_divide_distrib)
  next
    case False
    then have "e \<le> - 54" by simp
    then have p: "(2::real) powi e \<le> 2 powi (- 54)" by (rule powi_mono)
    from m have "m \<le> 2 ^ 53" by simp
    then have "(of_int m :: real) \<le> of_int (2 ^ 53)" by (simp only: of_int_le_iff)
    then have "(of_int m :: real) \<le> 2 ^ 53" by simp
    then have "r \<le> 2 ^ 53 * 2 powi e"
      by (simp add: r mult_right_mono)
    also have "\<dots> \<le> 2 ^ 53 * 2 powi (- 54)"
      using p by (simp add: mult_left_mono)
    also have "\<dots> = 1 / 2" by (simp add: power_int_minus)
    finally show ?thesis by simp
  qed
qed

lemma product_bound:
  assumes "0 \<le> r" and "r \<le> 1 - 1 / 2 ^ 53"
  shows "0 \<le> double (r * 900000) \<and> double (r * 900000) \<le> 900000 - 1 / 2 ^ 33"
proof (cases "r = 0")
  case True
  then show ?thesis by (simp add: double_def)
next
  case False
  with assms have x: "0 < r * 900000" by simp
  from assms have b: "r * 900000 \<le> 900000 - 900000 / 2 ^ 53" by (simp add: field_simps)
  have "double (r * 900000) \<le> of_int (900000 * 2 ^ 33 - 1) * 2 powi (19 - 52)"
    using x b by (intro double_le) (simp_all add: power_int_minus)
  then have "double (r * 900000) \<le> 900000 - 1 / 2 ^ 33"
    by (simp add: power_int_minus field_simps)
  moreover have "0 \<le> double (r * 900000)"
    using x by (intro double_nonneg) simp
  ultimately show ?thesis by simp
qed

lemma sum_bound:
  assumes "0 \<le> p" and "p \<le> 900000 - 1 / 2 ^ 33"
  shows "100000 \<le> double (100000 + p) \<and> double (100000 + p) \<le> 1000000 - 1 / 2 ^ 33"
proof -
  have "of_int (100000 * 2 ^ 36) * 2 powi (16 - 52) \<le> double (100000 + p)"
    using assms by (intro double_ge) (simp_all add: power_int_minus)
  then have lo: "100000 \<le> double (100000 + p)"
    by (simp add: power_int_minus)
  have "double (100000 + p) \<le> of_int (1000000 * 2 ^ 33 - 1) * 2 powi (19 - 52)"
    using assms by (intro double_le) (simp_all add: power_int_minus)
  then have "double (100000 + p) \<le> 1000000 - 1 / 2 ^ 33"
    by (simp add: power_int_minus field_simps)
  with lo show ?thesis by simp
qed

lemma floor_code_range:
  assumes "isDouble r" and "0 \<le> r" and "r < 1"
  shows "100000 \<le> \<lfloor>double (100000 + double (r * 900000))\<rfloor>
       \<and> \<lfloor>double (100000 + double (r * 900000))\<rfloor> \<le> 999999"
proof -
  from assms have "r \<le> 1 - 1 / 2 ^ 53" by (intro double_below_one)
  with assms have "0 \<le> double (r * 900000) \<and> double (r * 900000) \<le> 900000 - 1 / 2 ^ 33"
    by (intro product_bound)
  then have s: "100000 \<le> double (100000 + double (r * 900000))
       \<and> double (100000 + double (r * 900000)) \<le> 1000000 - 1 / 2 ^ 33"
    by (intro sum_bound) simp_all
  then have "double (100000 + double (r * 900000)) < 1000000" by simp
  with s show ?thesis by (simp add: le_floor_iff floor_le_iff)
qed

lemma double_0: "double 0 = 0"
  by (simp add: double_def)

lemma isDouble_half: "isDouble (1 / 2)"
  unfolding isDouble_def by (intro exI [of _ 1] exI [of _ "- 1"]) (simp add: power_int_minus)

subsection \<open>The codes\<close>

lemma toString_inj_on_codes: "inj_on toString {100000..999999}"
proof (rule inj_onI)
  fix x y :: int
  assume "x \<in> {100000..999999}" "y \<in> {100000..999999}" "toString x = toString y"
  then have "decimal (nat x) = decimal (nat y)" "0 \<le> x" "0 \<le> y"
    by (simp_all add: toString_def)
  then show "x = y" using decimal_inj [of "nat x" "nat y"] by simp
qed

lemma issued_codes:
  "{generateRandomCode r | r. isDouble r \<and> 0 \<le> r \<and> r < 1} \<subseteq> toString ` {100000..999999}"
proof
  fix c assume "c \<in> {generateRandomCode r | r. isDouble r \<and> 0 \<le> r \<and> r < 1}"
  then obtain r where r: "isDouble r" "0 \<le> r" "r < 1" "c = generateRandomCode r" by blast
  with floor_code_range [of r] show "c \<in> toString ` {100000..999999}"
    by (simp add: generateRandomCode_def)
qed

lemma generateRandomCode_0: "generateRandomCode 0 = ''100000''"
  by (simp add: generateRandomCode_def double_0 double_100000 toString_def decimal.simps
      digitChar_def)

lemma generateRandomCode_half: "generateRandomCode (1 / 2) = ''550000''"
  by (simp add: generateRandomCode_def double_450000 double_550000 toString_def decimal.simps
      digitChar_def)

text \<open>
  Claim C10. Whatever double in \<open>[0, 1)\<close> the random source returns, the code is the decimal
  string of an integer from 100000 to 999999: six characters, all of them digits, the first
  one not \<open>0\<close>. It is the code stored in the row that \<open>generateOtp\<close> appends. Every code
  that can be issued is the string of one of these integers, and their strings are 900000 in
  number.
\<close>

theorem generateRandomCode_six_digits:
  assumes "isDouble r" and "0 \<le> r" and "r < 1"
  shows "(\<exists>n. 100000 \<le> n \<and> n \<le> 999999 \<and> generateRandomCode r = toString n)
       \<and> length (generateRandomCode r) = 6
       \<and> list_all isDigit (generateRandomCode r)
       \<and> hd (generateRandomCode r) \<noteq> CHR ''0''
       \<and> otp_code (last (otp_rows (snd (generateOtp repo purpose email phone userId ip r now))))
           = generateRandomCode r
       \<and> {generateRandomCode x | x. isDouble x \<and> 0 \<le> x \<and> x < 1} \<subseteq> toString ` {100000..999999}
       \<and> card (toString ` {100000..999999}) = 900000"
proof -
  define n where "n = \<lfloor>double (100000 + double (r * 900000))\<rfloor>"
  from assms have range: "100000 \<le> n" "n \<le> 999999"
    using floor_code_range [of r] by (simp_all add: n_def)
  have code: "generateRandomCode r = toString n"
    by (simp only: generateRandomCode_def n_def)
  from range have str: "toString n = decimal (nat n)"
    by (simp add: toString_def)
  from range have "10 ^ 5 \<le> nat n" "nat n < 10 ^ Suc 5" by simp_all
  then have shape: "length (decimal (nat n)) = 6" "hd (decimal (nat n)) \<noteq> CHR ''0''"
    using decimal_length_hd [of 5 "nat n"] by simp_all
  have stored: "otp_code (last (otp_rows (snd (generateOtp repo purpose email phone userId ip r now))))
           = generateRandomCode r"
    by (simp add: generateOtp_def Let_def)
  have count: "card (toString ` {100000..999999}) = 900000"
    by (simp add: card_image toString_inj_on_codes)
  from range code have "\<exists>n. 100000 \<le> n \<and> n \<le> 999999 \<and> generateRandomCode r = toString n"
    by blast
  with code str shape stored count issued_codes show ?thesis
    by (simp add: decimal_all_digits)
qed

theorem generateRandomCode_six_digits_witness:
  "isDouble (1 / 2) \<and> (0::real) \<le> 1 / 2 \<and> (1 / 2 ::real) < 1
   \<and> generateRandomCode (1 / 2) = ''550000''
   \<and> length (generateRandomCode (1 / 2)) = 6 \<and> hd (generateRandomCode (1 / 2)) \<noteq> CHR ''0''"
  using generateRandomCode_six_digits [of "1 / 2"]
  by (simp add: generateRandomCode_half isDouble_half)

section \<open>The life of an OTP row\<close>

lemma find_replace_by_id:
  "find (\<lambda>r. otp_id r = i) rs = Some old \<Longrightarrow> otp_id new = i \<Longrightarrow>
   find (\<lambda>r. otp_id r = i) (map (\<lambda>r. if otp_id r = i then new else r) rs) = Some new"
  by (induction rs) (auto split: if_splits)

lemma findOtpById_saveOtp:
  "findOtpById (otp_rows repo) i = Some old \<Longrightarrow> otp_id new = i \<Longrightarrow>
   findOtpById (otp_rows (saveOtp new repo)) i = Some new"
  by (simp add: findOtpById_def saveOtp_def find_replace_by_id)

lemma findOtpById_id: "findOtpById rs i = Some otp \<Longrightarrow> otp_id otp = i"
  by (auto simp: findOtpById_def find_Some_iff)

lemma verifyOtp_wrong_code:
  assumes "findOtpById (otp_rows repo) i = Some otp"
    and "now \<le> otp_expiresAt otp" and "otp_status otp \<noteq> VERIFIED"
    and "otp_attempts otp < otp_maxAttempts otp" and "code \<noteq> otp_code otp"
  shows "fst (verifyOtp repo i code purpose now) = Inl (BadRequestException ''Invalid OTP code'')"
    and "findOtpById (otp_rows (snd (verifyOtp repo i code purpose now))) i
           = Some (otp\<lparr>otp_attempts := otp_attempts otp + 1\<rparr>)"
  using assms findOtpById_id [OF assms(1)]
  by (auto simp: verifyOtp_def findOtpById_saveOtp)

lemma verifyOtp_exhausted:
  assumes "findOtpById (otp_rows repo) i = Some otp"
    and "now \<le> otp_expiresAt otp" and "otp_status otp \<noteq> VERIFIED"
    and "otp_attempts otp \<ge> otp_maxAttempts otp"
  shows "fst (verifyOtp repo i code purpose now)
           = Inl (BadRequestException ''Maximum OTP attempts exceeded'')"
    and "findOtpById (otp_rows (snd (verifyOtp repo i code purpose now))) i
           = Some (otp\<lparr>otp_status := FAILED\<rparr>)"
  using assms findOtpById_id [OF assms(1)]
  by (auto simp: verifyOtp_def findOtpById_saveOtp)

lemma issuedOnce_rows:
  "issuedOnce =
     \<lparr>otp_rows =
        [\<lparr>otp_id = 0, otp_userId = None, otp_email = Some ''a@b.com'', otp_phone = None,
          otp_code = ''100000'', otp_purpose = EMAIL_VERIFICATION, otp_status = PENDING,
          otp_attempts = 0, otp_maxAttempts = 3, otp_expiresAt = 60000, otp_ipAddress = None,
          otp_createdAt = 0, otp_verifiedAt = None\<rparr>],
      otp_nextId = 1\<rparr>"
  by (simp add: issuedOnce_def generateOtp_def invalidatePreviousOtps_def generateRandomCode_0
      Let_def)

lemma issuedTwice_rows:
  "issuedTwice =
     \<lparr>otp_rows =
        [\<lparr>otp_id = 0, otp_userId = None, otp_email = Some ''a@b.com'', otp_phone = None,
          otp_code = ''100000'', otp_purpose = EMAIL_VERIFICATION, otp_status = EXPIRED,
          otp_attempts = 0, otp_maxAttempts = 3, otp_expiresAt = 60000, otp_ipAddress = None,
          otp_createdAt = 0, otp_verifiedAt = None\<rparr>,
         \<lparr>otp_id = 1, otp_userId = None, otp_email = Some ''a@b.com'', otp_phone = None,
          otp_code = ''550000'', otp_purpose = EMAIL_VERIFICATION, otp_status = PENDING,
          otp_attempts = 0, otp_maxAttempts = 3, otp_expiresAt = 70000, otp_ipAddress = None,
          otp_createdAt = 10000, otp_verifiedAt = None\<rparr>],
      otp_nextId = 2\<rparr>"
  by (simp add: issuedTwice_def issuedOnce_rows generateOtp_def invalidatePreviousOtps_def
      invalidates_def truthy_def generateRandomCode_half Let_def)

lemma issuedAndVerified_rows:
  "issuedAndVerified =
     \<lparr>otp_rows =
        [\<lparr>otp_id = 0, otp_userId = None, otp_email = Some ''a@b.com'', otp_phone = None,
          otp_code = ''100000'', otp_purpose = EMAIL_VERIFICATION, otp_status = VERIFIED,
          otp_attempts = 0, otp_maxAttempts = 3, otp_expiresAt = 60000, otp_ipAddress = None,
          otp_createdAt = 0, otp_verifiedAt = Some 20000\<rparr>],
      otp_nextId = 1\<rparr>"
  by (simp add: issuedAndVerified_def issuedOnce_rows verifyOtp_def findOtpById_def saveOtp_def)

text \<open>
  Claim C2, as the code behaves. A code is issued for \<open>(EMAIL_VERIFICATION, a@b.com)\<close> and,
  ten seconds later, a second one for the same pair; issuing the second marks the first row
  expired. Twenty seconds after the first issue, still forty seconds before its
  \<open>expiresAt\<close>, \<open>verifyOtp\<close> on the first row's id with the first row's code is not
  rejected: it answers \<open>verified\<close> and turns the superseded row into a verified one.
  \<open>verifyOtp\<close> tests the clock, then the status against \<open>VERIFIED\<close> only, so the
  status written by \<open>invalidatePreviousOtps\<close> never stops a verification.
\<close>

theorem superseded_otp_still_verifies:
  "map otp_status (otp_rows issuedTwice) = [EXPIRED, PENDING]
   \<and> fst (verifyOtp issuedTwice 0 ''100000'' EMAIL_VERIFICATION 20000)
       = Inr \<lparr>ver_verified = True, ver_userId = None, ver_email = Some ''a@b.com'',
              ver_phone = None\<rparr>
   \<and> map otp_status (otp_rows (snd (verifyOtp issuedTwice 0 ''100000'' EMAIL_VERIFICATION 20000)))
       = [VERIFIED, PENDING]"
  by (simp add: issuedTwice_rows verifyOtp_def findOtpById_def saveOtp_def)

text \<open>
  Claim C3, as stated, fails: after the third wrong code on a fresh row with three attempts
  allowed, the row is still pending.
\<close>

theorem third_wrong_code_leaves_pending:
  "map otp_status
     (otp_rows (snd (verifyOtp (snd (verifyOtp (snd (verifyOtp issuedOnce
        0 ''000000'' EMAIL_VERIFICATION 1000))
        0 ''000000'' EMAIL_VERIFICATION 2000))
        0 ''000000'' EMAIL_VERIFICATION 3000)))
   \<noteq> [FAILED]"
  by (simp add: issuedOnce_rows verifyOtp_def findOtpById_def saveOtp_def)

text \<open>
  Claim C3, amended. Take a pending row with \<open>maxAttempts = 3\<close> and \<open>attempts = 0\<close> and
  four calls of \<open>verifyOtp\<close> with wrong codes, none later than \<open>expiresAt\<close>. Each of the
  first three is rejected as an invalid code, and after the third the row has three attempts
  and is still pending. The fourth is rejected because the attempts are exhausted; it is this
  call that marks the row failed, and it leaves the attempts at three.
\<close>

theorem verifyOtp_four_wrong_codes:
  assumes found: "findOtpById (otp_rows repo) i = Some otp"
    and fresh: "otp_status otp = PENDING" "otp_attempts otp = 0" "otp_maxAttempts otp = 3"
    and wrong: "c1 \<noteq> otp_code otp" "c2 \<noteq> otp_code otp" "c3 \<noteq> otp_code otp"
      "c4 \<noteq> otp_code otp"
    and unexpired: "t1 \<le> otp_expiresAt otp" "t2 \<le> otp_expiresAt otp"
      "t3 \<le> otp_expiresAt otp" "t4 \<le> otp_expiresAt otp"
  shows "(let repo1 = snd (verifyOtp repo i c1 p t1);
              repo2 = snd (verifyOtp repo1 i c2 p t2);
              repo3 = snd (verifyOtp repo2 i c3 p t3);
              repo4 = snd (verifyOtp repo3 i c4 p t4)
          in fst (verifyOtp repo i c1 p t1) = Inl (BadRequestException ''Invalid OTP code'')
           \<and> fst (verifyOtp repo1 i c2 p t2) = Inl (BadRequestException ''Invalid OTP code'')
           \<and> fst (verifyOtp repo2 i c3 p t3) = Inl (BadRequestException ''Invalid OTP code'')
           \<and> findOtpById (otp_rows repo3) i = Some (otp\<lparr>otp_attempts := 3\<rparr>)
           \<and> fst (verifyOtp repo3 i c4 p t4)
               = Inl (BadRequestException ''Maximum OTP attempts exceeded'')
           \<and> findOtpById (otp_rows repo4) i
               = Some (otp\<lparr>otp_attempts := 3, otp_status := FAILED\<rparr>))"
proof -
  define repo1 where "repo1 = snd (verifyOtp repo i c1 p t1)"
  define repo2 where "repo2 = snd (verifyOtp repo1 i c2 p t2)"
  define repo3 where "repo3 = snd (verifyOtp repo2 i c3 p t3)"
  define repo4 where "repo4 = snd (verifyOtp repo3 i c4 p t4)"
  have r1: "fst (verifyOtp repo i c1 p t1) = Inl (BadRequestException ''Invalid OTP code'')"
    using verifyOtp_wrong_code(1) [OF found, of t1 c1 p] fresh wrong unexpired by simp
  have f1: "findOtpById (otp_rows repo1) i = Some (otp\<lparr>otp_attempts := 1\<rparr>)"
    using verifyOtp_wrong_code(2) [OF found, of t1 c1 p] fresh wrong unexpired
    by (simp add: repo1_def)
  have r2: "fst (verifyOtp repo1 i c2 p t2) = Inl (BadRequestException ''Invalid OTP code'')"
    using verifyOtp_wrong_code(1) [OF f1, of t2 c2 p] fresh wrong unexpired by simp
  have f2: "findOtpById (otp_rows repo2) i = Some (otp\<lparr>otp_attempts := 2\<rparr>)"
    using verifyOtp_wrong_code(2) [OF f1, of t2 c2 p] fresh wrong unexpired
    by (simp add: repo2_def)
  have r3: "fst (verifyOtp repo2 i c3 p t3) = Inl (BadRequestException ''Invalid OTP code'')"
    using verifyOtp_wrong_code(1) [OF f2, of t3 c3 p] fresh wrong unexpired by simp
  have f3: "findOtpById (otp_rows repo3) i = Some (otp\<lparr>otp_attempts := 3\<rparr>)"
    using verifyOtp_wrong_code(2) [OF f2, of t3 c3 p] fresh wrong unexpired
    by (simp add: repo3_def)
  have r4: "fst (verifyOtp repo3 i c4 p t4)
              = Inl (BadRequestException ''Maximum OTP attempts exceeded'')"
    using verifyOtp_exhausted(1) [OF f3, of t4 c4 p] fresh unexpired by simp
  have f4: "findOtpById (otp_rows repo4) i
              = Some (otp\<lparr>otp_attempts := 3, otp_status := FAILED\<rparr>)"
    using verifyOtp_exhausted(2) [OF f3, of t4 c4 p] fresh unexpired
    by (simp add: repo4_def)
  from r1 f1 r2 f2 r3 f3 r4 f4 show ?thesis
    unfolding Let_def repo1_def repo2_def repo3_def repo4_def by simp
qed

theorem verifyOtp_four_wrong_codes_witness:
  "findOtpById (otp_rows issuedOnce) 0 = Some (hd (otp_rows issuedOnce))
   \<and> otp_status (hd (otp_rows issuedOnce)) = PENDING
   \<and> otp_attempts (hd (otp_rows issuedOnce)) = 0
   \<and> otp_maxAttempts (hd (otp_rows issuedOnce)) = 3
   \<and> ''000000'' \<noteq> otp_code (hd (otp_rows issuedOnce))
   \<and> 4000 \<le> otp_expiresAt (hd (otp_rows issuedOnce))
   \<and> map (\<lambda>r. (otp_status r, otp_attempts r))
         (otp_rows (snd (verifyOtp (snd (verifyOtp (snd (verifyOtp issuedOnce
            0 ''000000'' EMAIL_VERIFICATION 1000))
            0 ''000000'' EMAIL_VERIFICATION 2000))
            0 ''000000'' EMAIL_VERIFICATION 3000)))
       = [(PENDING, 3)]
   \<and> fst (verifyOtp (snd (verifyOtp (snd (verifyOtp (snd (verifyOtp issuedOnce
            0 ''000000'' EMAIL_VERIFICATION 1000))
            0 ''000000'' EMAIL_VERIFICATION 2000))
            0 ''000000'' EMAIL_VERIFICATION 3000))
            0 ''000000'' EMAIL_VERIFICATION 4000)
       = Inl (BadRequestException ''Maximum OTP attempts exceeded'')"
  using verifyOtp_four_wrong_codes [of issuedOnce 0 "hd (otp_rows issuedOnce)"
      "''000000''" "''000000''" "''000000''" "''000000''" 1000 2000 3000 4000 EMAIL_VERIFICATION]
  by (simp add: issuedOnce_rows verifyOtp_def findOtpById_def saveOtp_def)

text \<open>
  Claim C5, as stated, fails. The code issued for \<open>a@b.com\<close> is verified after twenty
  seconds, and the address counts as verified. One second after the row's \<open>expiresAt\<close>,
  a further \<open>verifyOtp\<close> on the same id is rejected as expired, not as already used, and
  the row does not keep its status: it goes from verified to expired, and
  \<open>isEmailVerified\<close> no longer holds for the address.
\<close>

theorem expired_verified_otp_is_overwritten:
  "map otp_status (otp_rows issuedAndVerified) = [VERIFIED]
   \<and> isEmailVerified issuedAndVerified ''a@b.com''
   \<and> fst (verifyOtp issuedAndVerified 0 ''100000'' EMAIL_VERIFICATION 61000)
       = Inl (BadRequestException ''OTP has expired'')
   \<and> map otp_status (otp_rows (snd (verifyOtp issuedAndVerified 0 ''100000'' EMAIL_VERIFICATION 61000)))
       = [EXPIRED]
   \<and> \<not> isEmailVerified (snd (verifyOtp issuedAndVerified 0 ''100000'' EMAIL_VERIFICATION 61000))
         ''a@b.com''"
  by (simp add: issuedAndVerified_rows verifyOtp_def findOtpById_def saveOtp_def
      isEmailVerified_def)

text \<open>Every table the service can build keeps failed rows exhausted: it holds of the empty
  table, and issuing and verifying preserve it.\<close>

lemma failedRowsExhausted_empty: "failedRowsExhausted \<lparr>otp_rows = [], otp_nextId = n\<rparr>"
  by (simp add: failedRowsExhausted_def)

lemma failedRowsExhausted_generateOtp:
  "failedRowsExhausted repo \<Longrightarrow>
   failedRowsExhausted (snd (generateOtp repo purpose email phone userId ip r now))"
  by (auto simp: failedRowsExhausted_def generateOtp_def invalidatePreviousOtps_def Let_def)

lemma failedRowsExhausted_verifyOtp:
  assumes "failedRowsExhausted repo"
  shows "failedRowsExhausted (snd (verifyOtp repo i code purpose now))"
proof (cases "findOtpById (otp_rows repo) i")
  case None
  with assms show ?thesis by (simp add: verifyOtp_def)
next
  case (Some otp)
  then have "otp \<in> set (otp_rows repo)"
    by (auto simp: findOtpById_def find_Some_iff)
  with assms have "otp_status otp = FAILED \<longrightarrow> otp_maxAttempts otp \<le> otp_attempts otp"
    by (simp add: failedRowsExhausted_def)
  with assms Some show ?thesis
    by (auto simp: verifyOtp_def saveOtp_def failedRowsExhausted_def)
qed

text \<open>
  Claim C5, amended. Take a row that is verified, or failed with its attempts used up as
  every failed row of the service is. No \<open>verifyOtp\<close> on it compares codes: the call
  does the same whatever code is supplied, and it is always rejected. As long as the row's
  \<open>expiresAt\<close> has not passed, the call leaves the row as it is, and on a verified row
  it is rejected as already used, on a failed one as out of attempts. Once \<open>expiresAt\<close>
  has passed, the call is rejected as expired.
\<close>

theorem terminal_rows_are_not_compared:
  assumes found: "findOtpById (otp_rows repo) i = Some otp"
    and terminal: "otp_status otp = VERIFIED
                   \<or> (otp_status otp = FAILED \<and> otp_maxAttempts otp \<le> otp_attempts otp)"
  shows "verifyOtp repo i code purpose now = verifyOtp repo i code' purpose now
       \<and> isl (fst (verifyOtp repo i code purpose now))
       \<and> (if now \<le> otp_expiresAt otp
          then findOtpById (otp_rows (snd (verifyOtp repo i code purpose now))) i = Some otp
               \<and> (if otp_status otp = VERIFIED
                  then verifyOtp repo i code purpose now
                         = (Inl (BadRequestException ''OTP already used''), repo)
                  else fst (verifyOtp repo i code purpose now)
                         = Inl (BadRequestException ''Maximum OTP attempts exceeded''))
          else fst (verifyOtp repo i code purpose now)
                 = Inl (BadRequestException ''OTP has expired''))"
proof -
  have same: "otp_status otp = FAILED \<Longrightarrow> otp\<lparr>otp_status := FAILED\<rparr> = otp"
    by simp
  from found have id: "otp_id otp = i"
    by (rule findOtpById_id)
  show ?thesis
    using found terminal id
      findOtpById_saveOtp [OF found, of "otp\<lparr>otp_status := FAILED\<rparr>"]
    by (auto simp: verifyOtp_def same)
qed

theorem terminal_rows_are_not_compared_witness:
  "findOtpById (otp_rows issuedAndVerified) 0 = Some (hd (otp_rows issuedAndVerified))
   \<and> otp_status (hd (otp_rows issuedAndVerified)) = VERIFIED
   \<and> 30000 \<le> otp_expiresAt (hd (otp_rows issuedAndVerified))
   \<and> verifyOtp issuedAndVerified 0 ''100000'' EMAIL_VERIFICATION 30000
       = (Inl (BadRequestException ''OTP already used''), issuedAndVerified)
   \<and> verifyOtp issuedAndVerified 0 ''999999'' EMAIL_VERIFICATION 30000
       = verifyOtp issuedAndVerified 0 ''100000'' EMAIL_VERIFICATION 30000"
  using terminal_rows_are_not_compared [of issuedAndVerified 0 "hd (otp_rows issuedAndVerified)"
      "''999999''" EMAIL_VERIFICATION 30000 "''100000''"]
  by (simp add: issuedAndVerified_rows verifyOtp_def findOtpById_def)

text \<open>
  Claim C9. Whatever \<open>getPendingOtp\<close> returns is a pending row whose \<open>expiresAt\<close> lies
  strictly before the instant of the call; and when no pending row of the table has expired
  yet, it returns \<open>null\<close>.
\<close>

theorem getPendingOtp_only_expired:
  "(\<forall>otp. getPendingOtp repo purpose email phone now = Some otp
        \<longrightarrow> otp_expiresAt otp < now \<and> otp_status otp = PENDING)
   \<and> ((\<forall>r \<in> set (otp_rows repo). otp_status r = PENDING \<longrightarrow> now \<le> otp_expiresAt r)
        \<longrightarrow> getPendingOtp repo purpose email phone now = None)"
  by (auto simp: getPendingOtp_def find_Some_iff find_None_iff)

theorem getPendingOtp_only_expired_witness:
  "map (\<lambda>r. (otp_status r, otp_expiresAt r)) (otp_rows issuedOnce) = [(PENDING, 60000)]
   \<and> getPendingOtp issuedOnce EMAIL_VERIFICATION (Some ''a@b.com'') None 30000 = None
   \<and> getPendingOtp issuedOnce EMAIL_VERIFICATION (Some ''a@b.com'') None 60001
       = Some (hd (otp_rows issuedOnce))"
  using getPendingOtp_only_expired [of issuedOnce EMAIL_VERIFICATION "Some ''a@b.com''" None 30000]
  by (simp add: issuedOnce_rows getPendingOtp_def whereEq_def)

section \<open>The boundary of an IP block\<close>

lemma map_of_update_same: "map_of (AList.update k v al) k = Some v"
  by (simp add: update_conv')

lemma getAllBlockedIps_lists:
  "(ip, e) \<in> set m \<Longrightarrow> now \<le> blk_unblockAt e \<Longrightarrow> e \<in> set (fst (getAllBlockedIps m now))"
  by (force simp: getAllBlockedIps_def Let_def)

text \<open>
  Claim C4, as stated, fails in its last part: a block of one hour laid at instant 0 ends at
  3600000, and at exactly that instant \<open>isIpBlocked\<close> still answers true.
\<close>

theorem block_still_active_at_unblockAt:
  "blk_unblockAt (fst (blockIp [] ''203.0.113.9'' ''fraud'' 1 0)) = 3600000
   \<and> fst (isIpBlocked (snd (blockIp [] ''203.0.113.9'' ''fraud'' 1 0)) ''203.0.113.9'' 3600000)
       \<noteq> False"
  by (simp add: blockIp_def isIpBlocked_def Let_def)

text \<open>
  Claim C4, amended. A block with \<open>durationHours = 1\<close> laid at \<open>now\<close> has
  \<open>unblockAt = now + 3600000\<close>. \<open>isIpBlocked\<close> answers true one second before
  \<open>unblockAt\<close> and false one second after it, when it also removes the record. At exactly
  \<open>unblockAt\<close> the block is still active: \<open>isIpBlocked\<close> answers true and
  \<open>getAllBlockedIps\<close> lists the record. A block expires only once the clock is
  strictly past \<open>unblockAt\<close>.
\<close>

theorem block_one_hour_boundary:
  "blk_unblockAt (fst (blockIp bs ip reason 1 now)) = now + 3600000
   \<and> fst (isIpBlocked (snd (blockIp bs ip reason 1 now)) ip (now + 3600000 - 1000))
   \<and> \<not> fst (isIpBlocked (snd (blockIp bs ip reason 1 now)) ip (now + 3600000 + 1000))
   \<and> map_of (snd (isIpBlocked (snd (blockIp bs ip reason 1 now)) ip (now + 3600000 + 1000))) ip
       = None
   \<and> fst (isIpBlocked (snd (blockIp bs ip reason 1 now)) ip (now + 3600000))
   \<and> fst (blockIp bs ip reason 1 now)
        \<in> set (fst (getAllBlockedIps (snd (blockIp bs ip reason 1 now)) (now + 3600000)))"
proof -
  let ?e = "fst (blockIp bs ip reason 1 now)" and ?m = "snd (blockIp bs ip reason 1 now)"
  have look: "map_of ?m ip = Some ?e"
    by (simp add: blockIp_def Let_def map_of_update_same)
  have at: "blk_unblockAt ?e = now + 3600000" "blk_isActive ?e"
    by (simp_all add: blockIp_def Let_def)
  have "(ip, ?e) \<in> set ?m"
    using look by (rule map_of_SomeD)
  then have listed: "?e \<in> set (fst (getAllBlockedIps ?m (now + 3600000)))"
    using at by (simp add: getAllBlockedIps_lists)
  have gone: "map_of (AList.delete ip ?m) ip = None"
    by (simp add: delete_conv')
  show ?thesis
    using look at listed gone by (simp add: isIpBlocked_def)
qed

section \<open>Fraud scores\<close>

lemma verdict_bounds:
  "0 \<le> t_score t \<Longrightarrow>
   0 \<le> fraudScore (verdict t) \<and> fraudScore (verdict t) \<le> 100
   \<and> (isFraud (verdict t) \<longleftrightarrow> fraudScore (verdict t) \<ge> 50)"
  by (auto simp: verdict_def)

lemma score_flag: "t_score (flag r w k v t) = t_score t + w"
  by (simp add: flag_def)

lemma score_note_detail: "t_score (note_detail k v t) = t_score t"
  by (simp add: note_detail_def)

lemma score_emptyTally: "t_score emptyTally = 0"
  by (simp add: emptyTally_def)

lemma score_if: "t_score (if c then a else b) = (if c then t_score a else t_score b)"
  by simp

lemmas score_simps = score_if score_flag score_note_detail score_emptyTally

lemma checkEmailFraud_bounds:
  "0 \<le> fraudScore (checkEmailFraud lk email) \<and> fraudScore (checkEmailFraud lk email) \<le> 100
   \<and> (isFraud (checkEmailFraud lk email) \<longleftrightarrow> fraudScore (checkEmailFraud lk email) \<ge> 50)"
  unfolding checkEmailFraud_def Let_def
  by (rule verdict_bounds) (simp add: score_simps)

lemma checkPhoneFraud_bounds:
  "0 \<le> fraudScore (checkPhoneFraud lk phone) \<and> fraudScore (checkPhoneFraud lk phone) \<le> 100
   \<and> (isFraud (checkPhoneFraud lk phone) \<longleftrightarrow> fraudScore (checkPhoneFraud lk phone) \<ge> 50)"
  unfolding checkPhoneFraud_def Let_def
  by (rule verdict_bounds) (simp add: score_simps)

lemma checkIpFraud_bounds:
  "0 \<le> fraudScore (checkIpFraud lk logs ip email now)
   \<and> fraudScore (checkIpFraud lk logs ip email now) \<le> 100
   \<and> (isFraud (checkIpFraud lk logs ip email now)
        \<longleftrightarrow> fraudScore (checkIpFraud lk logs ip email now) \<ge> 50)"
  unfolding checkIpFraud_def Let_def
  by (rule verdict_bounds) (simp add: score_simps)

text \<open>
  Claim C6. For every address, number and IP, every content of the fraud log, every instant
  and every answer of the lookups behind the service, each of \<open>checkEmailFraud\<close>,
  \<open>checkPhoneFraud\<close> and \<open>checkIpFraud\<close> returns a score from 0 to 100, and
  \<open>isFraud\<close> is true exactly when that score is at least 50.
\<close>

theorem fraud_score_bounds:
  "(0 \<le> fraudScore (checkEmailFraud lk email) \<and> fraudScore (checkEmailFraud lk email) \<le> 100
    \<and> (isFraud (checkEmailFraud lk email) \<longleftrightarrow> fraudScore (checkEmailFraud lk email) \<ge> 50))
   \<and> (0 \<le> fraudScore (checkPhoneFraud lk phone) \<and> fraudScore (checkPhoneFraud lk phone) \<le> 100
    \<and> (isFraud (checkPhoneFraud lk phone) \<longleftrightarrow> fraudScore (checkPhoneFraud lk phone) \<ge> 50))
   \<and> (0 \<le> fraudScore (checkIpFraud lk logs ip ipEmail now)
    \<and> fraudScore (checkIpFraud lk logs ip ipEmail now) \<le> 100
    \<and> (isFraud (checkIpFraud lk logs ip ipEmail now)
         \<longleftrightarrow> fraudScore (checkIpFraud lk logs ip ipEmail now) \<ge> 50))"
  using checkEmailFraud_bounds [of lk email] checkPhoneFraud_bounds [of lk phone]
    checkIpFraud_bounds [of lk logs ip ipEmail now]
  by blast

section \<open>The brute-force check of the verification service\<close>

lemma lastFive_nth:
  assumes "5 \<le> length xs"
  shows "lastFive xs ! 4 = last xs" and "lastFive xs ! 0 = xs ! (length xs - 5)"
proof -
  from assms have "xs \<noteq> []" by auto
  with assms show "lastFive xs ! 4 = last xs"
    by (simp add: lastFive_def last_conv_nth)
  from assms show "lastFive xs ! 0 = xs ! (length xs - 5)"
    by (simp add: lastFive_def)
qed

text \<open>
  Claim C7. For the attempts recorded under the key of an identity and an address, the check
  answers true exactly when at least five failed ones fall within the last fifteen minutes,
  or there are at least five attempts and the last five, of whatever outcome, span less than
  thirty seconds from first to last.
\<close>

theorem checkBruteforceAttempt_rules:
  "checkBruteforceAttempt m email ip now \<longleftrightarrow>
     5 \<le> failedWithin15Minutes (attemptsOf m (attemptKey email ip)) now
     \<or> (5 \<le> length (attemptsOf m (attemptKey email ip))
        \<and> lastFiveSpan (attemptsOf m (attemptKey email ip)) < 30 * 1000)"
  by (auto simp: checkBruteforceAttempt_def Let_def failedWithin15Minutes_def lastFiveSpan_def
      lastFive_nth)

section \<open>Login eligibility of an account without a phone number\<close>

lemma phoneVerified_fail: "phoneVerified (fail m v) = phoneVerified v"
  by (simp add: fail_def)

lemma alice_fields:
  "users aliceStores = [alice]" "fraudLogs aliceStores = []" "blockedIps aliceStores = []"
  "loginAttempts aliceStores = []" "deviceFingerprints aliceStores = []"
  "user_email alice = ''alice@example.org''" "user_phone alice = None"
  "user_status alice = ACTIVE" "user_lockedUntil alice = None"
  by (simp_all add: aliceStores_def alice_def)

lemma alice_found: "findUserByEmail [alice] ''alice@example.org'' = Some alice"
  by (simp add: findUserByEmail_def alice_fields)

lemma alice_email_verified: "isEmailVerified (otpRepository aliceStores) ''alice@example.org''"
  by (simp add: isEmailVerified_def aliceStores_def)

lemma alice_ip_not_blocked: "isIpBlocked [] ''198.18.0.7'' 5000 = (False, [])"
  by (simp add: isIpBlocked_def)

lemma alice_ip_no_fraud:
  "isFraud (checkIpFraud (placeholderLookups (\<lambda>d. True) asciiLowerCase) [] ''198.18.0.7''
      (Some ''alice@example.org'') 5000) = False"
  by (simp add: checkIpFraud_def Let_def placeholderLookups_def isBlacklistedIp_def
      blacklistedIpRanges_def highRiskCountries_def orEmpty_def truthy_def
      checkBruteforceAttempt_log_def countBruteforceLogs_def checkMultipleAccountsFromIp_def
      verdict_def
      note_detail_def emptyTally_def)

lemma alice_no_bruteforce:
  "checkBruteforceAttempt [] ''alice@example.org'' ''198.18.0.7'' 5000 = False"
  by (simp add: checkBruteforceAttempt_def attemptsOf_def Let_def)

text \<open>
  Claim C1, as the code behaves. For a known account with no phone number, or an empty one,
  on file, the phone check is skipped and \<open>phoneVerified\<close> keeps its initial value
  \<open>false\<close>; as \<open>canLogin\<close> is the conjunction of all five flags, it is false
  whatever the other checks find.
\<close>

theorem checkLoginEligibility_without_phone:
  assumes "findUserByEmail (users st) email = Some user" and "\<not> truthy (user_phone user)"
  shows "\<not> phoneVerified (fst (checkLoginEligibility lk st email ip dev now))
       \<and> \<not> canLogin (fst (checkLoginEligibility lk st email ip dev now))"
  using assms by (simp add: checkLoginEligibility_def Let_def phoneVerified_fail)

text \<open>The account of the scenario has its email verified and meets a clean address: every
  other flag is true, no failure reason is given, and still it cannot log in.\<close>

theorem checkLoginEligibility_without_phone_witness:
  "findUserByEmail (users aliceStores) ''alice@example.org'' = Some alice
   \<and> \<not> truthy (user_phone alice)
   \<and> fst (checkLoginEligibility (placeholderLookups (\<lambda>d. True) asciiLowerCase) aliceStores
            ''alice@example.org'' ''198.18.0.7'' None 5000)
       = \<lparr>emailVerified = True, phoneVerified = False, fraudCheckPassed = True, ipClean = True,
          sessionValid = True, canLogin = False, failureReasons = []\<rparr>"
  using checkLoginEligibility_without_phone [of aliceStores "''alice@example.org''" alice
      "placeholderLookups (\<lambda>d. True) asciiLowerCase" "''198.18.0.7''" None 5000]
  by (simp add: checkLoginEligibility_def Let_def alice_found alice_fields alice_email_verified
      alice_ip_not_blocked alice_ip_no_fraud alice_no_bruteforce truthy_def)

section \<open>The sign-in policy\<close>

lemma hashPassword_fields:
  "user_id (hashPassword lib u) = user_id u"
  "user_email (hashPassword lib u) = user_email u"
  "user_failedLoginAttempts (hashPassword lib u) = user_failedLoginAttempts u"
  "user_lockedUntil (hashPassword lib u) = user_lockedUntil u"
  "user_status (hashPassword lib u) = user_status u"
  by (simp_all add: hashPassword_def)

lemma find_email_replace:
  "find (\<lambda>u. user_email u = e) us = Some old \<Longrightarrow> user_email new = e \<Longrightarrow>
   find (\<lambda>u. user_email u = e) (map (\<lambda>r. if user_id r = user_id old then new else r) us)
     = Some new"
  by (induction us) (auto split: if_splits)

lemma findUserByEmail_saveUser:
  assumes "findUserByEmail us e = Some old"
    and "user_email new = e" and "user_id new = user_id old"
  shows "findUserByEmail (saveUser lib new us) e = Some (hashPassword lib new)"
  using find_email_replace [of e us old "hashPassword lib new"] assms
  by (simp add: findUserByEmail_def saveUser_def hashPassword_fields)

lemma findUserByEmail_email: "findUserByEmail us e = Some u \<Longrightarrow> user_email u = e"
  by (auto simp: findUserByEmail_def find_Some_iff)

lemma fifth_strike_suspends:
  assumes "findUserByEmail us (dto_email dto) = Some user" and "canAttemptLogin user now"
    and "\<not> validatePassword lib user (dto_password dto)"
    and "user_failedLoginAttempts user + 1 \<ge> 5"
  shows "\<exists>saved. findUserByEmail (snd (signin lib us dto ip now)) (dto_email dto) = Some saved
           \<and> user_lockedUntil saved = Some (now + 15 * 60 * 1000)
           \<and> user_status saved = SUSPENDED \<and> (\<forall>t. \<not> canAttemptLogin saved t)"
proof -
  let ?u = "user\<lparr>user_failedLoginAttempts := user_failedLoginAttempts user + 1,
                  user_lockedUntil := Some (now + 15 * 60 * 1000), user_status := SUSPENDED\<rparr>"
  have run: "snd (signin lib us dto ip now) = saveUser lib ?u us"
    using assms by (simp add: signin_def Let_def)
  have "user_email ?u = dto_email dto" "user_id ?u = user_id user"
    using findUserByEmail_email [OF assms(1)] by simp_all
  from findUserByEmail_saveUser [OF assms(1) this, of lib] run
  have "findUserByEmail (snd (signin lib us dto ip now)) (dto_email dto)
          = Some (hashPassword lib ?u)"
    by simp
  then show ?thesis
    by (simp add: hashPassword_fields canAttemptLogin_def)
qed

text \<open>What \<open>signin\<close> does for an account that is found and may attempt a login (active and
  not locked), the only accounts whose password it tests. An invalid password is rejected
  and counted, and from the fifth on \<open>lockedUntil\<close> is set fifteen minutes ahead. With a
  valid password and the second factor enabled, a missing code and a code that
  \<open>totpVerify\<close> refuses under a window of two steps are rejected. When tokens are returned,
  the account was stored with no failed attempts and no lock before they were generated, and
  it is still so at the end.\<close>

lemma signin_counts_and_resets:
  assumes found: "findUserByEmail us (dto_email dto) = Some user"
    and may: "canAttemptLogin user now"
  shows "(\<not> validatePassword lib user (dto_password dto) \<longrightarrow>
            fst (signin lib us dto ip now) = Inl (UnauthorizedException ''Invalid credentials'')
          \<and> (\<exists>saved. findUserByEmail (snd (signin lib us dto ip now)) (dto_email dto) = Some saved
                \<and> user_failedLoginAttempts saved = user_failedLoginAttempts user + 1
                \<and> (if user_failedLoginAttempts user + 1 \<ge> 5
                    then user_lockedUntil saved = Some (now + 15 * 60 * 1000)
                    else user_lockedUntil saved = user_lockedUntil user
                         \<and> user_status saved = user_status user)))
       \<and> (validatePassword lib user (dto_password dto) \<and> user_mfaEnabled user \<longrightarrow>
            (\<not> truthy (dto_mfaCode dto) \<longrightarrow>
               signin lib us dto ip now = (Inl (BadRequestException ''MFA code required''), us))
          \<and> (truthy (dto_mfaCode dto)
               \<and> \<not> totpVerify lib (user_mfaSecret user) (orEmpty (dto_mfaCode dto)) 2 now \<longrightarrow>
               signin lib us dto ip now = (Inl (UnauthorizedException ''Invalid MFA code''), us)))
       \<and> (\<forall>tokens. fst (signin lib us dto ip now) = Inr tokens \<longrightarrow>
            (\<exists>reset. user_failedLoginAttempts reset = 0 \<and> user_lockedUntil reset = None
                \<and> findUserByEmail (saveUser lib reset us) (dto_email dto)
                    = Some (hashPassword lib reset)
                \<and> signin lib us dto ip now
                    = generateTokens lib (saveUser lib reset us) (hashPassword lib reset))
          \<and> (\<exists>final. findUserByEmail (snd (signin lib us dto ip now)) (dto_email dto) = Some final
                \<and> user_failedLoginAttempts final = 0 \<and> user_lockedUntil final = None))"
proof (intro conjI impI allI)
  assume bad: "\<not> validatePassword lib user (dto_password dto)"
  let ?u1 = "user\<lparr>user_failedLoginAttempts := user_failedLoginAttempts user + 1\<rparr>"
  let ?u2 = "if user_failedLoginAttempts ?u1 \<ge> 5
             then ?u1\<lparr>user_lockedUntil := Some (now + 15 * 60 * 1000), user_status := SUSPENDED\<rparr>
             else ?u1"
  have run: "signin lib us dto ip now
               = (Inl (UnauthorizedException ''Invalid credentials''), saveUser lib ?u2 us)"
    using found may bad by (simp add: signin_def Let_def)
  then show "fst (signin lib us dto ip now) = Inl (UnauthorizedException ''Invalid credentials'')"
    by simp
  have e: "user_email ?u2 = dto_email dto" "user_id ?u2 = user_id user"
    using findUserByEmail_email [OF found] by simp_all
  have look: "findUserByEmail (snd (signin lib us dto ip now)) (dto_email dto)
                = Some (hashPassword lib ?u2)"
    using findUserByEmail_saveUser [OF found e, of lib] run by simp
  show "\<exists>saved. findUserByEmail (snd (signin lib us dto ip now)) (dto_email dto) = Some saved
                \<and> user_failedLoginAttempts saved = user_failedLoginAttempts user + 1
                \<and> (if user_failedLoginAttempts user + 1 \<ge> 5
                    then user_lockedUntil saved = Some (now + 15 * 60 * 1000)
                    else user_lockedUntil saved = user_lockedUntil user
                         \<and> user_status saved = user_status user)"
    using look by (auto simp: hashPassword_fields)
next
  assume "validatePassword lib user (dto_password dto) \<and> user_mfaEnabled user"
    and "\<not> truthy (dto_mfaCode dto)"
  then show "signin lib us dto ip now = (Inl (BadRequestException ''MFA code required''), us)"
    using found may by (simp add: signin_def Let_def)
next
  assume "validatePassword lib user (dto_password dto) \<and> user_mfaEnabled user"
    and "truthy (dto_mfaCode dto)
         \<and> \<not> totpVerify lib (user_mfaSecret user) (orEmpty (dto_mfaCode dto)) 2 now"
  then show "signin lib us dto ip now = (Inl (UnauthorizedException ''Invalid MFA code''), us)"
    using found may by (simp add: signin_def Let_def)
next
  fix tokens assume ok: "fst (signin lib us dto ip now) = Inr tokens"
  let ?r = "user\<lparr>user_failedLoginAttempts := 0, user_lockedUntil := None,
                  user_lastLoginAt := Some now, user_lastLoginIp := Some ip,
                  user_status := ACTIVE\<rparr>"
  let ?us1 = "saveUser lib ?r us"
  have e: "user_email ?r = dto_email dto" "user_id ?r = user_id user"
    using findUserByEmail_email [OF found] by simp_all
  have run: "signin lib us dto ip now = generateTokens lib ?us1 (hashPassword lib ?r)"
    using found may ok by (auto simp: signin_def Let_def split: if_splits)
  have stored: "findUserByEmail ?us1 (dto_email dto) = Some (hashPassword lib ?r)"
    using findUserByEmail_saveUser [OF found e, of lib] by simp
  show "\<exists>reset. user_failedLoginAttempts reset = 0 \<and> user_lockedUntil reset = None
                \<and> findUserByEmail (saveUser lib reset us) (dto_email dto)
                    = Some (hashPassword lib reset)
                \<and> signin lib us dto ip now
                    = generateTokens lib (saveUser lib reset us) (hashPassword lib reset)"
    using run stored by (intro exI [of _ ?r]) simp
  let ?t = "(hashPassword lib ?r)\<lparr>user_refreshToken :=
              Some (jwtSign lib \<lparr>jwt_sub = user_id (hashPassword lib ?r),
                                jwt_email = user_email (hashPassword lib ?r),
                                jwt_role = user_role (hashPassword lib ?r)\<rparr> ''7d'')\<rparr>"
  have e2: "user_email ?t = dto_email dto" "user_id ?t = user_id (hashPassword lib ?r)"
    using e by (simp_all add: hashPassword_fields)
  have "snd (signin lib us dto ip now) = saveUser lib ?t ?us1"
    using run ok by (simp add: generateTokens_def Let_def split: if_splits)
  then have "findUserByEmail (snd (signin lib us dto ip now)) (dto_email dto)
               = Some (hashPassword lib ?t)"
    using findUserByEmail_saveUser [OF stored e2, of lib] by simp
  then show "\<exists>final. findUserByEmail (snd (signin lib us dto ip now)) (dto_email dto) = Some final
                \<and> user_failedLoginAttempts final = 0 \<and> user_lockedUntil final = None"
    by (simp add: hashPassword_fields)
qed

text \<open>When the signer returns a refresh token of more than 255 characters, the sign-in ends
  with the error of the store, after the reset account has been saved.\<close>

lemma signin_long_refresh_token:
  assumes "findUserByEmail us (dto_email dto) = Some user" and "canAttemptLogin user now"
    and "validatePassword lib user (dto_password dto)" and "\<not> user_mfaEnabled user"
    and "length ip \<le> 45"
    and "length (jwtSign lib \<lparr>jwt_sub = user_id user, jwt_email = user_email user,
                              jwt_role = user_role user\<rparr> ''7d'') > 255"
  shows "fst (signin lib us dto ip now)
           = Inl (QueryFailedError ''value too long for type character varying(255)'')"
  using assms
  by (simp add: signin_def Let_def generateTokens_def hashPassword_def)

lemma standIns_fields:
  "bcryptCompare standIns password hash \<longleftrightarrow> hash = ''$2b$'' @ password"
  "bcryptHash standIns password = ''$2b$'' @ password"
  "totpVerify standIns secret token window now
     \<longleftrightarrow> secret = Some ''JBSWY3DP'' \<and> token = ''492039'' \<and> window = 2"
  "jwtSign standIns payload lifetime = jwt_email payload @ ''/'' @ lifetime"
  by (simp_all add: standIns_def)

text \<open>The fifth wrong password on the first account of the scenario sets its lock fifteen
  minutes ahead; the second account signs in with password and code, and is stored reset.\<close>

lemma signin_counts_and_resets_example:
  "map (\<lambda>u. (user_failedLoginAttempts u, user_lockedUntil u, user_status u))
         (snd (signin standIns [bob, carol]
            \<lparr>dto_email = ''bob@example.org'', dto_password = ''wrong-horse'', dto_mfaCode = None\<rparr>
            ''198.18.0.7'' 1000))
       = [(5, Some 901000, SUSPENDED), (2, None, ACTIVE)]
   \<and> isl (fst (signin standIns [bob, carol]
            \<lparr>dto_email = ''carol@example.org'', dto_password = ''right-horse'', dto_mfaCode = None\<rparr>
            ''198.18.0.7'' 1000))
   \<and> isl (fst (signin standIns [bob, carol]
            \<lparr>dto_email = ''carol@example.org'', dto_password = ''right-horse'',
             dto_mfaCode = Some ''000000''\<rparr>
            ''198.18.0.7'' 1000))
   \<and> \<not> isl (fst (signin standIns [bob, carol]
            \<lparr>dto_email = ''carol@example.org'', dto_password = ''right-horse'',
             dto_mfaCode = Some ''492039''\<rparr>
            ''198.18.0.7'' 1000))
   \<and> map (\<lambda>u. (user_failedLoginAttempts u, user_lockedUntil u, user_status u))
         (snd (signin standIns [bob, carol]
            \<lparr>dto_email = ''carol@example.org'', dto_password = ''right-horse'',
             dto_mfaCode = Some ''492039''\<rparr>
            ''198.18.0.7'' 1000))
       = [(4, None, ACTIVE), (0, None, ACTIVE)]"
  by (simp add: signin_def Let_def findUserByEmail_def canAttemptLogin_def isAccountLocked_def
      validatePassword_def standIns_fields bob_def carol_def saveUser_def hashPassword_def
      generateTokens_def truthy_def orEmpty_def)

text \<open>
  Claim C8, as the code behaves. Take an account that is found and may attempt a login, and
  a sign-in with an invalid password that is its fifth strike or a later one. The stored
  account gets \<open>lockedUntil\<close> fifteen minutes after the instant of the call, and with it
  the status \<open>SUSPENDED\<close>. From then on every sign-in for the account is refused as
  locked or inactive, at every instant, fifteen minutes later and after as well, and whatever
  the password: \<open>signin\<close> lets only active accounts attempt a login, and the one place
  where it makes an account active again lies behind that test. The lock does not end
  after fifteen minutes.
\<close>

theorem fifth_strike_never_unlocks:
  assumes found: "findUserByEmail us (dto_email dto) = Some user"
    and may: "canAttemptLogin user now"
    and bad: "\<not> validatePassword lib user (dto_password dto)"
    and fifth: "user_failedLoginAttempts user + 1 \<ge> 5"
    and same: "dto_email later = dto_email dto"
  shows "(\<exists>saved. findUserByEmail (snd (signin lib us dto ip now)) (dto_email dto) = Some saved
            \<and> user_lockedUntil saved = Some (now + 15 * 60 * 1000)
            \<and> user_status saved = SUSPENDED)
       \<and> signin lib (snd (signin lib us dto ip now)) later ip' t
           = (Inl (UnauthorizedException ''Account is locked or inactive. Please contact support.''),
              snd (signin lib us dto ip now))"
proof -
  from fifth_strike_suspends [OF found may bad fifth, of ip]
  obtain saved where saved:
    "findUserByEmail (snd (signin lib us dto ip now)) (dto_email dto) = Some saved"
    "user_lockedUntil saved = Some (now + 15 * 60 * 1000)"
    "user_status saved = SUSPENDED" "\<not> canAttemptLogin saved t"
    by blast
  then have "signin lib (snd (signin lib us dto ip now)) later ip' t
           = (Inl (UnauthorizedException ''Account is locked or inactive. Please contact support.''),
              snd (signin lib us dto ip now))"
    using same by (simp add: signin_def)
  with saved show ?thesis by blast
qed

text \<open>The first account of the scenario has four strikes. A wrong password at instant 1000
  locks it until 901000; at 902000 the right password is refused.\<close>

theorem fifth_strike_never_unlocks_witness:
  "findUserByEmail [bob, carol] ''bob@example.org'' = Some bob
   \<and> canAttemptLogin bob 1000
   \<and> \<not> validatePassword standIns bob ''wrong-horse''
   \<and> user_failedLoginAttempts bob + 1 = 5
   \<and> validatePassword standIns bob ''right-horse''
   \<and> map (\<lambda>u. (user_failedLoginAttempts u, user_lockedUntil u, user_status u))
         (snd (signin standIns [bob, carol]
            \<lparr>dto_email = ''bob@example.org'', dto_password = ''wrong-horse'', dto_mfaCode = None\<rparr>
            ''198.18.0.7'' 1000))
       = [(5, Some 901000, SUSPENDED), (2, None, ACTIVE)]
   \<and> fst (signin standIns
            (snd (signin standIns [bob, carol]
               \<lparr>dto_email = ''bob@example.org'', dto_password = ''wrong-horse'', dto_mfaCode = None\<rparr>
               ''198.18.0.7'' 1000))
            \<lparr>dto_email = ''bob@example.org'', dto_password = ''right-horse'', dto_mfaCode = None\<rparr>
            ''198.18.0.7'' 902000)
       = Inl (UnauthorizedException ''Account is locked or inactive. Please contact support.'')"
  using fifth_strike_never_unlocks [of "[bob, carol]"
      "\<lparr>dto_email = ''bob@example.org'', dto_password = ''wrong-horse'', dto_mfaCode = None\<rparr>"
      bob 1000 standIns
      "\<lparr>dto_email = ''bob@example.org'', dto_password = ''right-horse'', dto_mfaCode = None\<rparr>"
      "''198.18.0.7''" "''198.18.0.7''" 902000]
  by (simp add: signin_def Let_def findUserByEmail_def canAttemptLogin_def isAccountLocked_def
      validatePassword_def standIns_fields bob_def carol_def saveUser_def hashPassword_def)

end
